theory Spec2Isabelle
  imports Complex_Main
begin

section \<open>The face verification service of \<^verbatim>\<open>src/server.js\<close>\<close>

text \<open>
  The service fetches a reference photo by URL, decodes an uploaded selfie, extracts one
  face descriptor from each and compares the two descriptors by Euclidean distance.

  A JavaScript number is a double. It is modelled by the real number it denotes, and
  \<open>toDouble\<close> below rounds a real to the nearest double: every decimal literal of the
  source that is not a double itself, every arithmetic operation of \<^verbatim>\<open>compareFaces\<close> and
  every \<^verbatim>\<open>Number(...)\<close> goes through it. Comparisons, \<^verbatim>\<open>Math.max\<close> and \<^verbatim>\<open>Math.min\<close> are
  exact on doubles. NaN and the infinities are not modelled. Image dimensions are natural
  numbers, as the canvas library reports them.
\<close>

subsection \<open>Doubles\<close>

text \<open>Rounding to the nearest integer, a tie going to the even one.\<close>

definition roundEven :: "real \<Rightarrow> int" where
  "roundEven v =
     (let n = \<lfloor>v\<rfloor> in
      if v - of_int n < 1 / 2 then n
      else if 1 / 2 < v - of_int n then n + 1
      else if even n then n else n + 1)"

text \<open>
  The exponent of the binade a nonzero real lies in, \<open>2 ^ e \<le> \<bar>v\<bar> < 2 ^ (e + 1)\<close>, not
  below that of the subnormal doubles.
\<close>

definition binade :: "real \<Rightarrow> int" where
  "binade v = max \<lfloor>log 2 \<bar>v\<bar>\<rfloor> (- 1022)"

text \<open>
  The nearest double, ties to even: doubles in the binade \<open>e\<close> are the multiples of
  \<open>2 ^ (e - 52)\<close>. Magnitudes from \<open>2 ^ 1024\<close> on, which a double turns into an infinity,
  are rounded in the same way.
\<close>

definition toDouble :: "real \<Rightarrow> real" where
  "toDouble v =
     (if v = 0 then 0
      else sgn v * of_int (roundEven (\<bar>v\<bar> / 2 powi (binade v - 52))) * 2 powi (binade v - 52))"

subsection \<open>Configuration (lines 42-45)\<close>

text \<open>The literal \<^verbatim>\<open>0.48\<close> is the double nearest to 0.48; the other three are doubles as written.\<close>

definition FACE_MATCH_THRESHOLD :: real where
  "FACE_MATCH_THRESHOLD = toDouble 0.48"

definition MIN_FACE_WIDTH :: real where
  "MIN_FACE_WIDTH = 120"

definition MIN_IMAGE_SIZE :: nat where
  "MIN_IMAGE_SIZE = 300"

definition INPUT_SIZE :: nat where
  "INPUT_SIZE = 512"

subsection \<open>Data\<close>

type_synonym bytes = "nat list"

type_synonym descriptor = "real list"

text \<open>A thrown JavaScript \<^verbatim>\<open>Error\<close> with its message.\<close>

datatype error = Error string

text \<open>A decoded image: \<^verbatim>\<open>image.width\<close>, \<^verbatim>\<open>image.height\<close> and its pixel data.\<close>

record Image =
  width :: nat
  height :: nat
  pixels :: bytes

text \<open>The bounding box of a detection, \<^verbatim>\<open>detections[0].detection.box\<close>.\<close>

record Box =
  x :: real
  y :: real
  width :: real
  height :: real

record FaceDetection =
  score :: real
  box :: Box

text \<open>One element of the array that \<^verbatim>\<open>detectAllFaces(...).withFaceLandmarks().withFaceDescriptors()\<close> resolves to.\<close>

record WithFaceDescriptor =
  detection :: FaceDetection
  descriptor :: descriptor

text \<open>The options object built at lines 109-113.\<close>

record SsdMobilenetv1Options =
  minConfidence :: real
  maxResults :: nat
  inputSize :: nat

text \<open>The response of \<^verbatim>\<open>fetch\<close>: \<^verbatim>\<open>res.ok\<close> and what \<^verbatim>\<open>res.buffer()\<close> resolves to or throws.\<close>

record FetchResponse =
  ok :: bool
  buffer :: "error + bytes"

text \<open>
  The object returned by \<^verbatim>\<open>extractFaceData\<close>: \<^verbatim>\<open>{success: false, msg}\<close> or
  \<^verbatim>\<open>{success: true, descriptor}\<close>.
\<close>

datatype FaceData = Failure string | Success descriptor

text \<open>The object returned by \<^verbatim>\<open>compareFaces\<close> (lines 154-159).\<close>

record VerificationResult =
  verified :: bool
  distance :: real
  matchPercentage :: real
  threshold :: real

text \<open>The request as the handler reads it: \<^verbatim>\<open>req.body.referenceImageUrl\<close> and \<^verbatim>\<open>req.file\<close>.\<close>

record Request =
  referenceImageUrl :: "string option"
  selfieFile :: "bytes option"

datatype ResponseBody = Msg string | Result VerificationResult

record HttpResponse =
  status :: nat
  body :: ResponseBody

subsection \<open>External collaborators and observable effects\<close>

text \<open>
  The libraries the service calls are parameters of the model. Each may throw, which is
  the \<open>Inl\<close> (or \<open>Some\<close>) result. \<open>detectAllFaces\<close> resolves to an array, or to a
  falsy value (\<open>None\<close>), which line 119 tests for.
\<close>

record env =
  loadFromDisk :: "string \<Rightarrow> error option"
  fetch :: "string \<Rightarrow> error + FetchResponse"
  canvas_loadImage :: "bytes \<Rightarrow> error + Image"
  detectAllFaces :: "Image \<Rightarrow> SsdMobilenetv1Options \<Rightarrow> error + WithFaceDescriptor list option"

text \<open>
  Every call of a collaborator and every console line is recorded in order. Console
  lines are recorded without the emoji they start with in the source.
\<close>

datatype event =
    ConsoleLog string
  | ConsoleError error
  | LoadFromDisk string
  | Fetch string
  | ResBuffer
  | CanvasLoadImage bytes
  | DetectAllFaces Image

text \<open>The process state: the flag of line 58 and the record of effects so far.\<close>

record state =
  modelsLoaded :: bool
  trace :: "event list"

definition emit :: "event \<Rightarrow> state \<Rightarrow> state" where
  "emit e s = s\<lparr>trace := trace s @ [e]\<rparr>"

subsection \<open>Loading the models (lines 58-73)\<close>

definition loadNet :: "env \<Rightarrow> string \<Rightarrow> state \<Rightarrow> (error + unit) \<times> state" where
  "loadNet E name s =
     (case loadFromDisk E name of
        Some e \<Rightarrow> (Inl e, emit (LoadFromDisk name) s)
      | None \<Rightarrow> (Inr (), emit (LoadFromDisk name) s))"

definition loadModels :: "env \<Rightarrow> state \<Rightarrow> (error + unit) \<times> state" where
  "loadModels E s =
     (if modelsLoaded s then (Inr (), s)
      else
        (case loadNet E ''ssdMobilenetv1'' (emit (ConsoleLog ''Loading face models...'') s) of
           (Inl e, s1) \<Rightarrow> (Inl e, s1)
         | (Inr _, s1) \<Rightarrow>
        (case loadNet E ''faceLandmark68Net'' s1 of
           (Inl e, s2) \<Rightarrow> (Inl e, s2)
         | (Inr _, s2) \<Rightarrow>
        (case loadNet E ''faceRecognitionNet'' s2 of
           (Inl e, s3) \<Rightarrow> (Inl e, s3)
         | (Inr _, s3) \<Rightarrow>
             (Inr (), emit (ConsoleLog ''Face models loaded'') (s3\<lparr>modelsLoaded := True\<rparr>))))))"

subsection \<open>Loading images (lines 80-90)\<close>

definition loadImageFromBuffer :: "env \<Rightarrow> bytes \<Rightarrow> state \<Rightarrow> (error + Image) \<times> state" where
  "loadImageFromBuffer E buf s =
     (canvas_loadImage E buf, emit (CanvasLoadImage buf) s)"

definition loadImageFromUrl :: "env \<Rightarrow> string \<Rightarrow> state \<Rightarrow> (error + Image) \<times> state" where
  "loadImageFromUrl E url s =
     (case fetch E url of
        Inl e \<Rightarrow> (Inl e, emit (Fetch url) s)
      | Inr res \<Rightarrow>
          if \<not> ok res then (Inl (Error ''Failed to fetch reference image''), emit (Fetch url) s)
          else
            (case buffer res of
               Inl e \<Rightarrow> (Inl e, emit ResBuffer (emit (Fetch url) s))
             | Inr buf \<Rightarrow>
                 (canvas_loadImage E buf,
                  emit (CanvasLoadImage buf) (emit ResBuffer (emit (Fetch url) s)))))"

subsection \<open>Face extraction (lines 95-142)\<close>

definition detectorOptions :: SsdMobilenetv1Options where
  "detectorOptions = \<lparr>minConfidence = 0.5, maxResults = 5, inputSize = INPUT_SIZE\<rparr>"

text \<open>Lines 119-141: what the detections are turned into.\<close>

definition classifyDetections :: "WithFaceDescriptor list option \<Rightarrow> FaceData" where
  "classifyDetections detections =
     (case detections of
        None \<Rightarrow> Failure ''No face detected''
      | Some ds \<Rightarrow>
          if length ds = 0 then Failure ''No face detected''
          else if length ds > 1 then Failure ''Multiple faces detected''
          else
            let faceBox = box (detection (ds ! 0)) in
            if Box.width faceBox < MIN_FACE_WIDTH
            then Failure ''Face too small. Move closer to camera.''
            else Success (descriptor (ds ! 0)))"

definition extractFaceData :: "env \<Rightarrow> Image \<Rightarrow> state \<Rightarrow> (error + FaceData) \<times> state" where
  "extractFaceData E img s =
     (case loadModels E s of
        (Inl e, s1) \<Rightarrow> (Inl e, s1)
      | (Inr _, s1) \<Rightarrow>
          if Image.width img < MIN_IMAGE_SIZE \<or> Image.height img < MIN_IMAGE_SIZE
          then (Inr (Failure ''Image too low quality. Use better camera.''), s1)
          else
            (case detectAllFaces E img detectorOptions of
               Inl e \<Rightarrow> (Inl e, emit (DetectAllFaces img) s1)
             | Inr detections \<Rightarrow>
                 (Inr (classifyDetections detections), emit (DetectAllFaces img) s1)))"

subsection \<open>Comparing descriptors (lines 147-160)\<close>

text \<open>
  Modelled from the spec: \<^verbatim>\<open>faceapi.euclideanDistance\<close> belongs to the face-api.js
  library, which is not part of \<^verbatim>\<open>src/\<close>. The spec describes it as the standard L2 norm
  of the element-wise difference of two embeddings of equal length, a length mismatch
  being a programming-error fault.
\<close>

definition euclideanDistance :: "descriptor \<Rightarrow> descriptor \<Rightarrow> error + real" where
  "euclideanDistance arr1 arr2 =
     (if length arr1 \<noteq> length arr2
      then Inl (Error ''euclideanDistance: arr1.length !== arr2.length'')
      else Inr (sqrt (sum_list (map (\<lambda>(a, b). (a - b)\<^sup>2) (zip arr1 arr2)))))"

text \<open>
  \<^verbatim>\<open>v.toFixed(f)\<close>, as the decimal it prints: the integer \<open>n\<close> for which
  \<open>n / 10 ^ f\<close> is closest to the magnitude of \<open>v\<close>, the larger one on a tie, with the
  sign of \<open>v\<close>; from \<open>10 ^ 21\<close> on it prints \<open>v\<close> itself. \<^verbatim>\<open>Number(...)\<close> then reads the
  decimal back as the nearest double.
\<close>

definition toFixed :: "real \<Rightarrow> nat \<Rightarrow> real" where
  "toFixed v f =
     (if 10 ^ 21 \<le> \<bar>v\<bar> then v
      else sgn v * (of_int \<lfloor>\<bar>v\<bar> * 10 ^ f + 1 / 2\<rfloor> / 10 ^ f))"

definition Number_toFixed :: "real \<Rightarrow> nat \<Rightarrow> real" where
  "Number_toFixed v f = toDouble (toFixed v f)"

text \<open>
  Lines 151-152: the percentage before it is printed. The subtraction and the
  multiplication each round their result to a double.
\<close>

definition percentageOf :: "real \<Rightarrow> real" where
  "percentageOf dst = max 0 (min 100 (toDouble (toDouble (1 - dst) * 100)))"

text \<open>Lines 151-159: the result object, built from the distance of line 148.\<close>

definition scoreDistance :: "real \<Rightarrow> VerificationResult" where
  "scoreDistance dst =
     \<lparr>verified = dst < FACE_MATCH_THRESHOLD,
      distance = Number_toFixed dst 4,
      matchPercentage = Number_toFixed (percentageOf dst) 2,
      threshold = FACE_MATCH_THRESHOLD\<rparr>"

definition compareFaces :: "descriptor \<Rightarrow> descriptor \<Rightarrow> error + VerificationResult" where
  "compareFaces d1 d2 =
     (case euclideanDistance d1 d2 of
        Inl e \<Rightarrow> Inl e
      | Inr dst \<Rightarrow> Inr (scoreDistance dst))"

subsection \<open>The verify endpoint (lines 176-220)\<close>

text \<open>The body of the \<^verbatim>\<open>try\<close> block: a response, or a thrown error.\<close>

definition verifyTry :: "env \<Rightarrow> Request \<Rightarrow> state \<Rightarrow> (error + HttpResponse) \<times> state" where
  "verifyTry E req s =
     (case (referenceImageUrl req, selfieFile req) of
        (Some url, Some selfieBuffer) \<Rightarrow>
          if url = [] then
            (Inr \<lparr>status = 400, body = Msg ''referenceImageUrl and selfie file required''\<rparr>, s)
          else
          (case loadImageFromUrl E url s of
             (Inl e, s1) \<Rightarrow> (Inl e, s1)
           | (Inr referenceImg, s1) \<Rightarrow>
          (case extractFaceData E referenceImg s1 of
             (Inl e, s2) \<Rightarrow> (Inl e, s2)
           | (Inr (Failure msg), s2) \<Rightarrow>
               (Inr \<lparr>status = 400, body = Msg (''Reference image error: '' @ msg)\<rparr>, s2)
           | (Inr (Success refDescriptor), s2) \<Rightarrow>
          (case loadImageFromBuffer E selfieBuffer s2 of
             (Inl e, s3) \<Rightarrow> (Inl e, s3)
           | (Inr selfieImg, s3) \<Rightarrow>
          (case extractFaceData E selfieImg s3 of
             (Inl e, s4) \<Rightarrow> (Inl e, s4)
           | (Inr (Failure msg), s4) \<Rightarrow>
               (Inr \<lparr>status = 400, body = Msg (''Selfie error: '' @ msg)\<rparr>, s4)
           | (Inr (Success selfieDescriptor), s4) \<Rightarrow>
          (case compareFaces refDescriptor selfieDescriptor of
             Inl e \<Rightarrow> (Inl e, s4)
           | Inr result \<Rightarrow> (Inr \<lparr>status = 200, body = Result result\<rparr>, s4))))))
      | _ \<Rightarrow>
          (Inr \<lparr>status = 400, body = Msg ''referenceImageUrl and selfie file required''\<rparr>, s))"

text \<open>The handler: the \<^verbatim>\<open>catch\<close> clause turns every thrown error into one fixed response.\<close>

definition verify :: "env \<Rightarrow> Request \<Rightarrow> state \<Rightarrow> HttpResponse \<times> state" where
  "verify E req s =
     (case verifyTry E req s of
        (Inr res, s') \<Rightarrow> (res, s')
      | (Inl err, s') \<Rightarrow>
          (\<lparr>status = 500, body = Msg ''Face verification failed''\<rparr>, emit (ConsoleError err) s'))"

definition genericFailure :: HttpResponse where
  "genericFailure = \<lparr>status = 500, body = Msg ''Face verification failed''\<rparr>"

text \<open>The four messages with which \<^verbatim>\<open>extractFaceData\<close> rejects an image.\<close>

definition userFacingReasons :: "string set" where
  "userFacingReasons =
     {''Image too low quality. Use better camera.'',
      ''No face detected'',
      ''Multiple faces detected'',
      ''Face too small. Move closer to camera.''}"

subsection \<open>Observing the trace\<close>

fun isDetect :: "event \<Rightarrow> bool" where
  "isDetect (DetectAllFaces _) = True"
| "isDetect _ = False"

fun isDecode :: "event \<Rightarrow> bool" where
  "isDecode (CanvasLoadImage _) = True"
| "isDecode _ = False"

definition detectorCalls :: "state \<Rightarrow> nat" where
  "detectorCalls s = length (filter isDetect (trace s))"

definition decodeCalls :: "state \<Rightarrow> nat" where
  "decodeCalls s = length (filter isDecode (trace s))"

subsection \<open>Calls of \<^verbatim>\<open>loadModels\<close> in flight at the same time\<close>

text \<open>
  \<^verbatim>\<open>loadModels\<close> is an async function with three \<^verbatim>\<open>await\<close>s. A call runs without
  interruption from one \<^verbatim>\<open>await\<close> to the next; while it is suspended, other calls may
  run. A call in flight is at one of these points: not yet started, suspended at one of
  the three \<^verbatim>\<open>await\<close>s (the load it waits for has been started), returned, or thrown.
\<close>

datatype pc = Entry | AwaitSsd | AwaitLandmark | AwaitRecognition | Returned | Thrown error

text \<open>Running one call from where it stands to its next \<^verbatim>\<open>await\<close> or to its end.\<close>

definition resume :: "env \<Rightarrow> pc \<Rightarrow> state \<Rightarrow> pc \<times> state" where
  "resume E p s =
     (case p of
        Entry \<Rightarrow>
          if modelsLoaded s then (Returned, s)
          else (AwaitSsd,
                emit (LoadFromDisk ''ssdMobilenetv1'')
                  (emit (ConsoleLog ''Loading face models...'') s))
      | AwaitSsd \<Rightarrow>
          (case loadFromDisk E ''ssdMobilenetv1'' of
             Some e \<Rightarrow> (Thrown e, s)
           | None \<Rightarrow> (AwaitLandmark, emit (LoadFromDisk ''faceLandmark68Net'') s))
      | AwaitLandmark \<Rightarrow>
          (case loadFromDisk E ''faceLandmark68Net'' of
             Some e \<Rightarrow> (Thrown e, s)
           | None \<Rightarrow> (AwaitRecognition, emit (LoadFromDisk ''faceRecognitionNet'') s))
      | AwaitRecognition \<Rightarrow>
          (case loadFromDisk E ''faceRecognitionNet'' of
             Some e \<Rightarrow> (Thrown e, s)
           | None \<Rightarrow>
               (Returned, emit (ConsoleLog ''Face models loaded'') (s\<lparr>modelsLoaded := True\<rparr>)))
      | Returned \<Rightarrow> (Returned, s)
      | Thrown e \<Rightarrow> (Thrown e, s))"

text \<open>Several calls sharing the process state; a schedule names the call to resume next.\<close>

definition resumeCall :: "env \<Rightarrow> nat \<Rightarrow> pc list \<times> state \<Rightarrow> pc list \<times> state" where
  "resumeCall E i cs =
     (if i < length (fst cs)
      then (case resume E (fst cs ! i) (snd cs) of (p, s') \<Rightarrow> ((fst cs)[i := p], s'))
      else cs)"

fun runSchedule :: "env \<Rightarrow> nat list \<Rightarrow> pc list \<times> state \<Rightarrow> pc list \<times> state" where
  "runSchedule E [] cs = cs"
| "runSchedule E (i # sched) cs = runSchedule E sched (resumeCall E i cs)"

subsection \<open>Sample collaborators\<close>

definition freshState :: state where
  "freshState = \<lparr>modelsLoaded = False, trace = []\<rparr>"

definition sampleFace :: "real \<Rightarrow> descriptor \<Rightarrow> WithFaceDescriptor" where
  "sampleFace w d =
     \<lparr>detection = \<lparr>score = 0.875, box = \<lparr>x = 10, y = 10, width = w, height = w\<rparr>\<rparr>,
      descriptor = d\<rparr>"

text \<open>
  A world in which every model loads and every URL answers with the given bytes. The
  first byte of an image is its side length in hundreds of pixels; each further byte
  \<open>v\<close> is a face 150 pixels wide with descriptor \<open>[v / 8, 5]\<close>.
\<close>

definition sampleEnv :: "bytes \<Rightarrow> env" where
  "sampleEnv refBytes =
     \<lparr>loadFromDisk = (\<lambda>_. None),
      fetch = (\<lambda>_. Inr \<lparr>ok = True, buffer = Inr refBytes\<rparr>),
      canvas_loadImage =
        (\<lambda>b. case b of
               [] \<Rightarrow> Inl (Error ''Unsupported image type'')
             | n # _ \<Rightarrow> Inr \<lparr>Image.width = 100 * n, height = 100 * n, pixels = b\<rparr>),
      detectAllFaces =
        (\<lambda>img _. Inr (Some (map (\<lambda>v. sampleFace 150 [real v / 8, 5]) (tl (pixels img)))))\<rparr>"

definition sampleRequest :: "bytes \<Rightarrow> Request" where
  "sampleRequest selfieBytes =
     \<lparr>referenceImageUrl = Some ''http://host/ref.jpg'', selfieFile = Some selfieBytes\<rparr>"

text \<open>The same world with the model files missing from the disk.\<close>

definition missingModelsEnv :: env where
  "missingModelsEnv =
     (sampleEnv [2])\<lparr>loadFromDisk := (\<lambda>_. Some (Error ''ENOENT: no such file or directory''))\<rparr>"

definition smallImage :: Image where
  "smallImage = \<lparr>Image.width = 200, height = 200, pixels = [2]\<rparr>"


section \<open>Properties\<close>

subsection \<open>Printing with a fixed number of decimals\<close>

lemma toFixed_grid:
  assumes "of_int lo \<le> v * 10 ^ f" "v * 10 ^ f \<le> of_int hi" "0 \<le> lo" "of_int hi < (10::real) ^ 21 * 10 ^ f"
  shows "of_int lo / 10 ^ f \<le> toFixed v f \<and> toFixed v f \<le> of_int hi / 10 ^ f"
proof -
  have p: "(0::real) < 10 ^ f" by simp
  have v0: "0 \<le> v"
  proof -
    have "(0::real) \<le> of_int lo" using assms(3) by simp
    then have "0 \<le> v * 10 ^ f" using assms(1) by linarith
    then show ?thesis using p by (simp add: zero_le_mult_iff)
  qed
  have small: "\<bar>v\<bar> < 10 ^ 21"
  proof -
    have "v * 10 ^ f < 10 ^ 21 * 10 ^ f" using assms(2,4) by linarith
    then have "v < 10 ^ 21" using p by simp
    then show ?thesis using v0 by simp
  qed
  have lo: "lo \<le> \<lfloor>v * 10 ^ f + 1 / 2\<rfloor>"
    using assms(1) by (simp add: le_floor_iff)
  have hi: "\<lfloor>v * 10 ^ f + 1 / 2\<rfloor> \<le> hi"
  proof -
    have "v * 10 ^ f + 1 / 2 < of_int (hi + 1)" using assms(2) by simp
    then have "\<lfloor>v * 10 ^ f + 1 / 2\<rfloor> < hi + 1" by (simp only: floor_less_iff)
    then show ?thesis by simp
  qed
  show ?thesis
  proof (cases "v = 0")
    case True
    then have "lo \<le> 0" using assms(1) by simp
    with assms(3) have "lo = 0" by simp
    moreover have "0 \<le> hi" using assms(2) True by simp
    ultimately show ?thesis using True by (simp add: toFixed_def)
  next
    case False
    then have "0 < v" using v0 by simp
    then have "toFixed v f = of_int \<lfloor>v * 10 ^ f + 1 / 2\<rfloor> / 10 ^ f"
      using small by (simp add: toFixed_def)
    then show ?thesis using lo hi p by (simp add: divide_le_cancel)
  qed
qed

lemma toFixed_exact:
  assumes "0 \<le> n" "of_int n < (10::real) ^ 21 * 10 ^ f"
  shows "toFixed (of_int n / 10 ^ f) f = of_int n / 10 ^ f"
  using toFixed_grid[of n "of_int n / 10 ^ f" f n] assms by simp


subsection \<open>Rounding to a double\<close>

lemma roundEven_ge: "of_int m \<le> v \<Longrightarrow> m \<le> roundEven v"
proof -
  assume "of_int m \<le> v"
  then have "m \<le> \<lfloor>v\<rfloor>" by (simp add: le_floor_iff)
  then show ?thesis by (simp add: roundEven_def Let_def)
qed

lemma roundEven_le: "v \<le> of_int m \<Longrightarrow> roundEven v \<le> m"
proof -
  assume h: "v \<le> of_int m"
  show ?thesis
  proof (cases "v = of_int \<lfloor>v\<rfloor>")
    case True
    then have "of_int \<lfloor>v\<rfloor> \<le> (of_int m :: real)" using h by simp
    then have "\<lfloor>v\<rfloor> \<le> m" by (simp only: of_int_le_iff)
    moreover have "roundEven v = \<lfloor>v\<rfloor>" using True by (simp add: roundEven_def Let_def)
    ultimately show ?thesis by simp
  next
    case False
    have "of_int \<lfloor>v\<rfloor> < v" by (metis False of_int_floor_le order_less_le)
    with h have "of_int \<lfloor>v\<rfloor> < (of_int m :: real)" by linarith
    then have "\<lfloor>v\<rfloor> < m" by (simp only: of_int_less_iff)
    then show ?thesis by (simp add: roundEven_def Let_def)
  qed
qed

lemma floor_log2_eq:
  assumes "2 powi e \<le> v" "v < 2 powi (e + 1)"
  shows "\<lfloor>log 2 v\<rfloor> = e"
proof -
  have "(0::real) < 2 powi e" by simp
  then have pos: "0 < v" using assms(1) by linarith
  have a: "(2::real) powr real_of_int e = 2 powi e" by (simp add: powr_real_of_int')
  have b: "(2::real) powr real_of_int (e + 1) = 2 powi (e + 1)"
    by (rule powr_real_of_int') simp_all
  have c: "real_of_int e + 1 = real_of_int (e + 1)" by simp
  have "2 powr real_of_int e \<le> v \<and> v < 2 powr (real_of_int e + 1)"
    unfolding c a b using assms by simp
  then show ?thesis using floor_log_eq_powr_iff[of v 2 e] pos by simp
qed

lemma floor_log2_bounds:
  assumes "0 < v"
  shows "2 powi \<lfloor>log 2 v\<rfloor> \<le> v \<and> v < 2 powi (\<lfloor>log 2 v\<rfloor> + 1)"
proof -
  have a: "(2::real) powr real_of_int e = 2 powi e" for e
    by (rule powr_real_of_int') simp_all
  have c: "real_of_int \<lfloor>log 2 v\<rfloor> + 1 = real_of_int (\<lfloor>log 2 v\<rfloor> + 1)" by simp
  from floor_log_eq_powr_iff[of v 2 "\<lfloor>log 2 v\<rfloor>"] assms
  have "2 powr real_of_int \<lfloor>log 2 v\<rfloor> \<le> v \<and> v < 2 powr (real_of_int \<lfloor>log 2 v\<rfloor> + 1)" by simp
  then show ?thesis unfolding c a .
qed

lemma binade_eq:
  assumes "2 powi e \<le> \<bar>v\<bar>" "\<bar>v\<bar> < 2 powi (e + 1)" "- 1022 \<le> e"
  shows "binade v = e"
  using floor_log2_eq[OF assms(1,2)] assms(3) by (simp add: binade_def)

lemma binade_upper:
  assumes "v \<noteq> 0"
  shows "\<bar>v\<bar> < 2 powi (binade v + 1)"
proof -
  have "\<bar>v\<bar> < 2 powi (\<lfloor>log 2 \<bar>v\<bar>\<rfloor> + 1)" using floor_log2_bounds[of "\<bar>v\<bar>"] assms by simp
  also have "\<dots> \<le> 2 powi (binade v + 1)"
    by (rule power_int_increasing) (simp_all add: binade_def)
  finally show ?thesis .
qed

lemma binade_lower:
  assumes "v \<noteq> 0" "- 1022 < binade v"
  shows "2 powi binade v \<le> \<bar>v\<bar>"
proof -
  have "binade v = \<lfloor>log 2 \<bar>v\<bar>\<rfloor>" using assms(2) by (simp add: binade_def max_def split: if_splits)
  then show ?thesis using floor_log2_bounds[of "\<bar>v\<bar>"] assms(1) by simp
qed

lemma binade_mono:
  assumes "0 < a" "a \<le> v"
  shows "binade a \<le> binade v"
proof -
  have "log 2 a \<le> log 2 v" using assms by simp
  then have "\<lfloor>log 2 a\<rfloor> \<le> \<lfloor>log 2 v\<rfloor>" by (rule floor_mono)
  then show ?thesis using assms by (simp add: binade_def)
qed

lemma toDouble_pos:
  assumes "0 < v"
  shows "toDouble v = of_int (roundEven (v / 2 powi (binade v - 52))) * 2 powi (binade v - 52)"
  using assms by (simp add: toDouble_def)

lemma toDouble_nonpos:
  assumes "v \<le> 0"
  shows "toDouble v \<le> 0"
proof (cases "v = 0")
  case True
  then show ?thesis by (simp add: toDouble_def)
next
  case False
  then have neg: "v < 0" using assms by simp
  have "0 \<le> \<bar>v\<bar> / 2 powi (binade v - 52)" by simp
  then have "0 \<le> roundEven (\<bar>v\<bar> / 2 powi (binade v - 52))"
    using roundEven_ge[of 0] by simp
  then have "0 \<le> real_of_int (roundEven (\<bar>v\<bar> / 2 powi (binade v - 52))) * 2 powi (binade v - 52)"
    by simp
  then show ?thesis using neg by (simp add: toDouble_def)
qed

lemma toDouble_nonneg:
  assumes "0 \<le> v"
  shows "0 \<le> toDouble v"
proof (cases "v = 0")
  case True
  then show ?thesis by (simp add: toDouble_def)
next
  case False
  then have pos: "0 < v" using assms by simp
  have "0 \<le> v / 2 powi (binade v - 52)" using pos by simp
  then have "0 \<le> roundEven (v / 2 powi (binade v - 52))"
    using roundEven_ge[of 0] by simp
  then show ?thesis using pos by (simp add: toDouble_pos)
qed

text \<open>A normal double: \<open>m * 2 ^ (e - 52)\<close> with a 53-bit \<open>m\<close>.\<close>

lemma grid_binade:
  assumes "2 ^ 52 \<le> m" "m < 2 ^ 53" "- 1022 \<le> e"
  shows "binade (of_int m * 2 powi (e - 52)) = e"
    and "(0::real) < of_int m * 2 powi (e - 52)"
    and "(2::real) powi e \<le> of_int m * 2 powi (e - 52)"
    and "of_int m * 2 powi (e - 52) < (2::real) powi (e + 1)"
proof -
  let ?q = "(2::real) powi (e - 52)"
  have q: "0 < ?q" by simp
  have e1: "(2::real) powi e = 2 ^ 52 * ?q"
    using power_int_add[of "2::real" 52 "e - 52"] by simp
  have e2: "(2::real) powi (e + 1) = 2 ^ 53 * ?q"
    using power_int_add[of "2::real" 53 "e - 52"] by (simp add: add.commute)
  have m1: "(2::real) ^ 52 \<le> of_int m" using assms(1) by (simp add: of_int_le_iff[symmetric] del: of_int_le_iff)
  have m2: "of_int m < (2::real) ^ 53" using assms(2) by (simp add: of_int_less_iff[symmetric] del: of_int_less_iff)
  show lo: "2 powi e \<le> of_int m * ?q" unfolding e1 using m1 q by simp
  show hi: "of_int m * ?q < 2 powi (e + 1)" unfolding e2 using m2 q by simp
  have "(0::real) < 2 powi e" by simp
  then show pos: "0 < of_int m * ?q" using lo by linarith
  show "binade (of_int m * ?q) = e"
    using binade_eq[of e "of_int m * ?q"] lo hi pos assms(3) by simp
qed

lemma toDouble_lower:
  assumes "2 ^ 52 \<le> m" "m < 2 ^ 53" "- 1022 \<le> e"
    and "of_int m * 2 powi (e - 52) \<le> v"
  shows "of_int m * 2 powi (e - 52) \<le> toDouble v"
proof -
  let ?a = "of_int m * (2::real) powi (e - 52)"
  note g = grid_binade[OF assms(1-3)]
  have pos: "0 < v" using g(2) assms(4) by linarith
  let ?q = "(2::real) powi (binade v - 52)"
  have q: "0 < ?q" by simp
  have le: "e \<le> binade v" using binade_mono[OF g(2) assms(4)] g(1) by simp
  show ?thesis
  proof (cases "binade v = e")
    case True
    have "of_int m \<le> v / ?q" using assms(4) q True by (simp add: pos_le_divide_eq)
    then have "m \<le> roundEven (v / ?q)" by (rule roundEven_ge)
    then have "?a \<le> of_int (roundEven (v / ?q)) * ?q" using q True by simp
    then show ?thesis using pos by (simp add: toDouble_pos)
  next
    case False
    with le have lt: "e < binade v" by simp
    then have "- 1022 < binade v" using assms(3) by simp
    from binade_lower[OF _ this] pos have lo: "2 powi binade v \<le> v" by simp
    have e1: "(2::real) powi binade v = 2 ^ 52 * ?q"
      using power_int_add[of "2::real" 52 "binade v - 52"] by simp
    have "of_int (2 ^ 52) \<le> v / ?q" using lo q unfolding e1 by (simp add: pos_le_divide_eq)
    then have "2 ^ 52 \<le> roundEven (v / ?q)" by (rule roundEven_ge)
    then have "(2::real) ^ 52 \<le> of_int (roundEven (v / ?q))"
      by (simp add: of_int_le_iff[symmetric] del: of_int_le_iff)
    then have "2 ^ 52 * ?q \<le> of_int (roundEven (v / ?q)) * ?q" using q by simp
    then have "2 powi binade v \<le> toDouble v" using pos e1 by (simp add: toDouble_pos)
    moreover have "(2::real) powi (e + 1) \<le> 2 powi binade v"
      using lt by (intro power_int_increasing) simp_all
    ultimately show ?thesis using g(4) by linarith
  qed
qed

lemma toDouble_upper:
  assumes "2 ^ 52 \<le> m" "m < 2 ^ 53" "- 1022 \<le> e"
    and "v \<le> of_int m * 2 powi (e - 52)"
  shows "toDouble v \<le> of_int m * 2 powi (e - 52)"
proof (cases "v \<le> 0")
  case True
  from toDouble_nonpos[OF True] grid_binade(2)[OF assms(1-3)] show ?thesis by linarith
next
  case False
  then have pos: "0 < v" by simp
  let ?a = "of_int m * (2::real) powi (e - 52)"
  note g = grid_binade[OF assms(1-3)]
  let ?q = "(2::real) powi (binade v - 52)"
  have q: "0 < ?q" by simp
  have le: "binade v \<le> e" using binade_mono[OF pos assms(4)] g(1) by simp
  show ?thesis
  proof (cases "binade v = e")
    case True
    have "v / ?q \<le> of_int m" using assms(4) q True by (simp add: pos_divide_le_eq)
    then have "roundEven (v / ?q) \<le> m" by (rule roundEven_le)
    then have "of_int (roundEven (v / ?q)) * ?q \<le> ?a" using q True by simp
    then show ?thesis using pos by (simp add: toDouble_pos)
  next
    case False
    with le have lt: "binade v < e" by simp
    from binade_upper[of v] pos have hi: "v < 2 powi (binade v + 1)" by simp
    have e2: "(2::real) powi (binade v + 1) = 2 ^ 53 * ?q"
      using power_int_add[of "2::real" 53 "binade v - 52"] by (simp add: add.commute)
    have "v / ?q \<le> of_int (2 ^ 53)" using hi q unfolding e2 by (simp add: pos_divide_le_eq)
    then have "roundEven (v / ?q) \<le> 2 ^ 53" by (rule roundEven_le)
    then have "of_int (roundEven (v / ?q)) \<le> (2::real) ^ 53"
      by (simp add: of_int_le_iff[symmetric] del: of_int_le_iff)
    then have "of_int (roundEven (v / ?q)) * ?q \<le> 2 ^ 53 * ?q" using q by simp
    then have "toDouble v \<le> 2 powi (binade v + 1)" using pos e2 by (simp add: toDouble_pos)
    moreover have "(2::real) powi (binade v + 1) \<le> 2 powi e"
      using lt by (intro power_int_increasing) simp_all
    ultimately show ?thesis using g(3) by linarith
  qed
qed

lemma toDouble_grid:
  assumes "2 ^ 52 \<le> m" "m < 2 ^ 53" "- 1022 \<le> e"
  shows "toDouble (of_int m * 2 powi (e - 52)) = of_int m * 2 powi (e - 52)"
  using toDouble_lower[OF assms, of "of_int m * 2 powi (e - 52)"]
    toDouble_upper[OF assms, of "of_int m * 2 powi (e - 52)"] by simp

lemma toDouble_eval:
  assumes "2 powi e \<le> v" "v < 2 powi (e + 1)" "- 1022 \<le> e"
  shows "toDouble v = of_int (roundEven (v / 2 powi (e - 52))) * 2 powi (e - 52)"
proof -
  have "(0::real) < 2 powi e" by simp
  then have pos: "0 < v" using assms(1) by linarith
  have "binade v = e" using binade_eq[of e v] assms pos by simp
  then show ?thesis using pos by (simp add: toDouble_pos)
qed

lemma toDouble_1: "toDouble 1 = 1"
  using toDouble_grid[of "2 ^ 52" 0] by (simp add: power_int_minus)

lemma toDouble_100: "toDouble 100 = 100"
  using toDouble_grid[of "100 * 2 ^ 46" 6] by (simp add: power_int_minus)

lemma toDouble_048: "toDouble 0.48 = 8646911284551352 / 2 ^ 54"
  using toDouble_eval[of "-2" "0.48"] by (simp add: power_int_minus roundEven_def)

lemma toDouble_030: "toDouble 0.30 = 5404319552844595 / 2 ^ 54"
  using toDouble_eval[of "-2" "0.30"] by (simp add: power_int_minus roundEven_def)

lemma toDouble_060: "toDouble 0.60 = 5404319552844595 / 2 ^ 53"
  using toDouble_eval[of "-1" "0.60"] by (simp add: power_int_minus roundEven_def)


subsection \<open>The similarity scorer\<close>

lemma toDouble_0: "toDouble 0 = 0"
  by (simp add: toDouble_def)

lemma toDouble_70: "toDouble 70 = 70"
  using toDouble_grid[of "70 * 2 ^ 46" 6] by (simp add: power_int_minus)

lemma toDouble_40: "toDouble 40 = 40"
  using toDouble_grid[of "40 * 2 ^ 47" 5] by (simp add: power_int_minus)

lemma toDouble_ge_52: "52 \<le> v \<Longrightarrow> 52 \<le> toDouble v"
  using toDouble_lower[of "52 * 2 ^ 47" 5 v] by (simp add: power_int_minus)

lemma toDouble_le_100: "v \<le> 100 \<Longrightarrow> toDouble v \<le> 100"
  using toDouble_upper[of "100 * 2 ^ 46" 6 v] by (simp add: power_int_minus)

lemma FACE_MATCH_THRESHOLD_value: "FACE_MATCH_THRESHOLD = 8646911284551352 / 2 ^ 54"
  unfolding FACE_MATCH_THRESHOLD_def by (rule toDouble_048)

text \<open>Below the threshold, \<open>1 - dst\<close> rounds to at least the double \<open>1 - 0.48\<close>.\<close>

lemma toDouble_complement_below_threshold:
  assumes "dst < FACE_MATCH_THRESHOLD"
  shows "4683743612465316 / 2 ^ 53 \<le> toDouble (1 - dst)"
proof -
  have "real_of_int 4683743612465316 * 2 powi (- 1 - 52) \<le> 1 - dst"
    using assms by (simp add: FACE_MATCH_THRESHOLD_value power_int_minus)
  from toDouble_lower[OF _ _ _ this] show ?thesis by (simp add: power_int_minus)
qed

lemma percentageOf_range: "0 \<le> percentageOf dst \<and> percentageOf dst \<le> 100"
  by (simp add: percentageOf_def)

lemma percentageOf_verified:
  assumes "dst < FACE_MATCH_THRESHOLD"
  shows "52 \<le> percentageOf dst"
proof -
  have "52 \<le> toDouble (1 - dst) * 100"
    using toDouble_complement_below_threshold[OF assms] by simp
  then have "52 \<le> toDouble (toDouble (1 - dst) * 100)" by (rule toDouble_ge_52)
  then show ?thesis by (simp add: percentageOf_def)
qed

lemma percentageOf_0: "percentageOf 0 = 100"
  by (simp add: percentageOf_def toDouble_1 toDouble_100)

lemma percentageOf_far:
  assumes "1 \<le> dst"
  shows "percentageOf dst = 0"
proof -
  have "toDouble (1 - dst) \<le> 0" using assms by (intro toDouble_nonpos) simp
  then have "toDouble (1 - dst) * 100 \<le> 0" by simp
  then have "toDouble (toDouble (1 - dst) * 100) \<le> 0" by (rule toDouble_nonpos)
  then show ?thesis by (simp add: percentageOf_def)
qed

lemma Number_toFixed_percentage:
  assumes "of_int lo \<le> v * 100" "v \<le> 100" "0 \<le> lo"
  shows "of_int lo / 100 \<le> toFixed v 2 \<and> toFixed v 2 \<le> 100"
  using toFixed_grid[of lo v 2 10000] assms by simp

lemma Number_toFixed_range:
  assumes "0 \<le> v" "v \<le> 100"
  shows "0 \<le> Number_toFixed v 2 \<and> Number_toFixed v 2 \<le> 100"
proof -
  have "0 \<le> toFixed v 2 \<and> toFixed v 2 \<le> 100"
    using Number_toFixed_percentage[of 0 v] assms by simp
  then show ?thesis
    by (simp add: Number_toFixed_def toDouble_nonneg toDouble_le_100)
qed

lemma Number_toFixed_ge_52:
  assumes "52 \<le> v" "v \<le> 100"
  shows "52 \<le> Number_toFixed v 2"
proof -
  have "52 \<le> toFixed v 2"
    using Number_toFixed_percentage[of 5200 v] assms by simp
  then show ?thesis by (simp add: Number_toFixed_def toDouble_ge_52)
qed

lemma Number_toFixed_100: "Number_toFixed 100 2 = 100"
  using toFixed_exact[of 10000 2] by (simp add: Number_toFixed_def toDouble_100)

lemma Number_toFixed_0: "Number_toFixed 0 f = 0"
  by (simp add: Number_toFixed_def toFixed_def toDouble_0)

lemma euclideanDistance_eq:
  "length d1 = length d2 \<Longrightarrow>
   euclideanDistance d1 d2 = Inr (sqrt (sum_list (map (\<lambda>(a, b). (a - b)\<^sup>2) (zip d1 d2))))"
  by (simp add: euclideanDistance_def)

lemma sum_squares_nonneg: "0 \<le> sum_list (map (\<lambda>(a, b). (a - b)\<^sup>2) (zip (d1::real list) d2))"
  by (rule sum_list_nonneg) auto

lemma euclideanDistance_nonneg: "euclideanDistance d1 d2 = Inr dst \<Longrightarrow> 0 \<le> dst"
  using sum_squares_nonneg[of d1 d2] by (auto simp: euclideanDistance_def split: if_splits)

lemma sum_squares_commute:
  "sum_list (map (\<lambda>(a, b). (a - b)\<^sup>2) (zip (d1::real list) d2)) =
   sum_list (map (\<lambda>(a, b). (a - b)\<^sup>2) (zip d2 d1))"
proof -
  have "map (\<lambda>(a, b). (a - b)\<^sup>2) (zip d1 d2) =
        map (\<lambda>(a, b). (a - b)\<^sup>2) (map (\<lambda>(a, b). (b, a)) (zip d2 d1))"
    by (subst zip_commute) simp
  also have "\<dots> = map (\<lambda>(a, b). (a - b)\<^sup>2) (zip d2 d1)"
    by (simp add: case_prod_unfold power2_commute)
  finally show ?thesis by simp
qed

lemma euclideanDistance_one_coordinate:
  "0 \<le> v \<Longrightarrow> euclideanDistance [v, c] [0, c] = Inr v"
  "0 \<le> v \<Longrightarrow> euclideanDistance [c, v] [c, 0] = Inr v"
  "0 \<le> v \<Longrightarrow> euclideanDistance [v] [0] = Inr v"
  by (simp_all add: euclideanDistance_def)

text \<open>
  Claim C1. For two embeddings of equal length, \<^verbatim>\<open>compareFaces\<close> returns a result whose
  \<open>verified\<close> field is true exactly when the Euclidean distance of the embeddings is
  strictly below the threshold, the double 0.48; at a distance equal to the threshold it is
  false. The decision is taken on the distance itself, while the reported \<open>distance\<close>
  field is that distance printed with four decimals and read back. The same holds of
  lines 151-159 for whatever distance line 148 hands them.
\<close>

theorem compareFaces_verified_unrounded:
  assumes "length d1 = length d2"
  shows "\<exists>dst r. dst = sqrt (sum_list (map (\<lambda>(a, b). (a - b)\<^sup>2) (zip d1 d2)))
           \<and> euclideanDistance d1 d2 = Inr dst
           \<and> compareFaces d1 d2 = Inr r
           \<and> (verified r \<longleftrightarrow> dst < toDouble 0.48)
           \<and> (dst = toDouble 0.48 \<longrightarrow> \<not> verified r)
           \<and> distance r = toDouble (toFixed dst 4)
           \<and> r = scoreDistance dst
           \<and> (\<forall>v. verified (scoreDistance v) \<longleftrightarrow> v < toDouble 0.48)"
  using assms
  by (simp add: compareFaces_def euclideanDistance_eq scoreDistance_def FACE_MATCH_THRESHOLD_def
      Number_toFixed_def)

text \<open>
  The distance 983 / 2048, a double a little below the threshold, is reported as 0.48 and
  is verified all the same.
\<close>

lemma toFixed_near_threshold: "toFixed (983 / 2048) 4 = 0.48"
  by (simp add: toFixed_def)

lemma toFixed_threshold: "toFixed (8646911284551352 / 2 ^ 54) 4 = 0.48"
  by (simp add: toFixed_def)

theorem compareFaces_verified_unrounded_witness:
  "length [983 / 2048 :: real] = length [0::real]
   \<and> (\<exists>r. compareFaces [983 / 2048] [0] = Inr r \<and> verified r \<and> distance r = toDouble 0.48)"
proof -
  have len: "length [983 / 2048 :: real] = length [0::real]" by simp
  from compareFaces_verified_unrounded[OF len]
  obtain dst r where
    d: "euclideanDistance [983 / 2048] [0] = Inr dst"
    and c: "compareFaces [983 / 2048] [0] = Inr r"
    and v: "verified r \<longleftrightarrow> dst < toDouble 0.48"
    and r: "distance r = toDouble (toFixed dst 4)"
    by blast
  have dv: "dst = 983 / 2048" using d euclideanDistance_one_coordinate(3)[of "983 / 2048"] by simp
  have "distance r = toDouble 0.48" using r unfolding dv toFixed_near_threshold .
  moreover have "verified r" using v unfolding dv toDouble_048 by simp
  ultimately show ?thesis using c len by blast
qed

text \<open>
  Two comparisons that report the same distance and differ in the decision: the decision
  is not a function of the reported distance.
\<close>

lemma rounded_distance_does_not_decide:
  "\<exists>r1 r2. compareFaces [983 / 2048] [0] = Inr r1
     \<and> compareFaces [8646911284551352 / 2 ^ 54] [0] = Inr r2
     \<and> distance r1 = distance r2 \<and> verified r1 \<and> \<not> verified r2"
proof -
  have a: "compareFaces [983 / 2048] [0] = Inr (scoreDistance (983 / 2048))"
    using euclideanDistance_one_coordinate(3)[of "983 / 2048"] by (simp add: compareFaces_def)
  have b: "compareFaces [8646911284551352 / 2 ^ 54] [0]
             = Inr (scoreDistance (8646911284551352 / 2 ^ 54))"
    using euclideanDistance_one_coordinate(3)[of "8646911284551352 / 2 ^ 54"]
    by (simp add: compareFaces_def)
  have "distance (scoreDistance (983 / 2048)) = distance (scoreDistance (8646911284551352 / 2 ^ 54))"
    by (simp only: scoreDistance_def Number_toFixed_def VerificationResult.simps
        toFixed_near_threshold toFixed_threshold)
  moreover have "verified (scoreDistance (983 / 2048))"
    by (simp add: scoreDistance_def FACE_MATCH_THRESHOLD_value)
  moreover have "\<not> verified (scoreDistance (8646911284551352 / 2 ^ 54))"
    by (simp add: scoreDistance_def FACE_MATCH_THRESHOLD_value)
  ultimately show ?thesis using a b by blast
qed

text \<open>
  Claim C4. For two embeddings of equal length, the percentage that \<^verbatim>\<open>compareFaces\<close>
  computes is \<open>(1 - distance) * 100\<close>, in double arithmetic, clamped to the interval from 0
  to 100, and it is reported with two decimals. It lies between 0 and 100; at distance 0 it
  is 100 and the result is verified; at any distance of 1 or more it is 0.
\<close>

theorem compareFaces_percentage_clamped:
  assumes "length d1 = length d2"
  shows "\<exists>dst r. euclideanDistance d1 d2 = Inr dst
           \<and> compareFaces d1 d2 = Inr r
           \<and> matchPercentage r =
               toDouble (toFixed (max 0 (min 100 (toDouble (toDouble (1 - dst) * 100)))) 2)
           \<and> 0 \<le> matchPercentage r \<and> matchPercentage r \<le> 100
           \<and> (dst = 0 \<longrightarrow> matchPercentage r = 100 \<and> verified r)
           \<and> (1 \<le> dst \<longrightarrow> matchPercentage r = 0)"
proof -
  define dst where "dst = sqrt (sum_list (map (\<lambda>(a, b). (a - b)\<^sup>2) (zip d1 d2)))"
  have e: "euclideanDistance d1 d2 = Inr dst"
    using assms by (simp add: euclideanDistance_eq dst_def)
  then have c: "compareFaces d1 d2 = Inr (scoreDistance dst)"
    by (simp add: compareFaces_def)
  have m: "matchPercentage (scoreDistance dst) =
             toDouble (toFixed (max 0 (min 100 (toDouble (toDouble (1 - dst) * 100)))) 2)"
    by (simp add: scoreDistance_def percentageOf_def Number_toFixed_def)
  have rng: "0 \<le> matchPercentage (scoreDistance dst) \<and> matchPercentage (scoreDistance dst) \<le> 100"
    using Number_toFixed_range[of "percentageOf dst"] percentageOf_range[of dst]
    by (simp add: scoreDistance_def)
  have z: "dst = 0 \<longrightarrow> matchPercentage (scoreDistance dst) = 100 \<and> verified (scoreDistance dst)"
    by (simp add: scoreDistance_def percentageOf_0 Number_toFixed_100 FACE_MATCH_THRESHOLD_value)
  have o: "1 \<le> dst \<longrightarrow> matchPercentage (scoreDistance dst) = 0"
    by (simp add: scoreDistance_def percentageOf_far Number_toFixed_0)
  from e c m rng z o show ?thesis by blast
qed

theorem compareFaces_percentage_clamped_witness:
  "length [1::real, 2] = length [1::real, 2]
   \<and> (\<exists>r. compareFaces [1, 2] [1, 2] = Inr r \<and> matchPercentage r = 100 \<and> verified r)"
proof -
  have len: "length [1::real, 2] = length [1::real, 2]" by simp
  from compareFaces_percentage_clamped[OF len]
  obtain dst r where
    e: "euclideanDistance [1::real, 2] [1, 2] = Inr dst"
    and c: "compareFaces [1, 2] [1, 2] = Inr r"
    and z: "dst = 0 \<longrightarrow> matchPercentage r = 100 \<and> verified r"
    by blast
  have "dst = 0" using e by (simp add: euclideanDistance_def)
  with z c len show ?thesis by blast
qed

text \<open>
  Claim C7. Scoring is symmetric: for two embeddings of equal length the distance is the
  same in both argument orders, and so is the whole result of \<^verbatim>\<open>compareFaces\<close>.
\<close>

theorem compareFaces_symmetric:
  assumes "length a = length b"
  shows "euclideanDistance a b = euclideanDistance b a
         \<and> compareFaces a b = compareFaces b a
         \<and> (\<exists>r. compareFaces a b = Inr r \<and> compareFaces b a = Inr r)"
  using assms sum_squares_commute[of a b]
  by (simp add: compareFaces_def euclideanDistance_def)

theorem compareFaces_symmetric_witness:
  "length [0.25::real, 5] = length [0::real, 5]
   \<and> compareFaces [0.25, 5] [0, 5] = compareFaces [0, 5] [0.25, 5]"
proof -
  have len: "length [0.25::real, 5] = length [0::real, 5]" by simp
  show ?thesis using len compareFaces_symmetric[OF len] by blast
qed

text \<open>
  Claim C10. For two embeddings of equal length, a verified result has a match percentage
  of at least 52 and at most 100.
\<close>

theorem verified_percentage_at_least_52:
  assumes "length d1 = length d2"
  shows "\<exists>r. compareFaces d1 d2 = Inr r
           \<and> (verified r \<longrightarrow> 52 \<le> matchPercentage r \<and> matchPercentage r \<le> 100)"
proof -
  define dst where "dst = sqrt (sum_list (map (\<lambda>(a, b). (a - b)\<^sup>2) (zip d1 d2)))"
  have e: "euclideanDistance d1 d2 = Inr dst"
    using assms by (simp add: euclideanDistance_eq dst_def)
  then have c: "compareFaces d1 d2 = Inr (scoreDistance dst)"
    by (simp add: compareFaces_def)
  have "52 \<le> matchPercentage (scoreDistance dst) \<and> matchPercentage (scoreDistance dst) \<le> 100"
    if v: "verified (scoreDistance dst)"
  proof -
    have lt: "dst < FACE_MATCH_THRESHOLD" using v by (simp add: scoreDistance_def)
    have p: "52 \<le> percentageOf dst" using lt by (rule percentageOf_verified)
    have q: "percentageOf dst \<le> 100" using percentageOf_range[of dst] by simp
    have "0 \<le> percentageOf dst" using p by simp
    from Number_toFixed_ge_52[OF p q] Number_toFixed_range[OF this q]
    show ?thesis by (simp add: scoreDistance_def)
  qed
  with c show ?thesis by blast
qed

theorem verified_percentage_at_least_52_witness:
  "length [0.25::real, 5] = length [0::real, 5]
   \<and> (\<exists>r. compareFaces [0.25, 5] [0, 5] = Inr r \<and> verified r
          \<and> 52 \<le> matchPercentage r \<and> matchPercentage r \<le> 100)"
proof -
  have len: "length [0.25::real, 5] = length [0::real, 5]" by simp
  from verified_percentage_at_least_52[OF len]
  obtain r where c: "compareFaces [0.25, 5] [0, 5] = Inr r"
    and i: "verified r \<longrightarrow> 52 \<le> matchPercentage r \<and> matchPercentage r \<le> 100"
    by blast
  have "compareFaces [0.25, 5] [0, 5] = Inr (scoreDistance 0.25)"
    using euclideanDistance_one_coordinate(1)[of "0.25" 5] by (simp add: compareFaces_def)
  with c have "r = scoreDistance 0.25" by simp
  then have "verified r" by (simp add: scoreDistance_def FACE_MATCH_THRESHOLD_value)
  with c i len show ?thesis by blast
qed

text \<open>The arithmetic of lines 151-157 at the doubles 0.30 and 0.60.\<close>

lemma complement_030: "toDouble (1 - 5404319552844595 / 2 ^ 54) = 6305039478318694 / 2 ^ 53"
  using toDouble_eval[of "-1" "1 - 5404319552844595 / 2 ^ 54"]
  by (simp add: power_int_minus roundEven_def)

lemma times_100_030: "toDouble (6305039478318694 / 2 ^ 53 * 100) = 70"
  using toDouble_eval[of 6 "6305039478318694 / 2 ^ 53 * 100"]
  by (simp add: power_int_minus roundEven_def)

lemma complement_060: "toDouble (1 - 5404319552844595 / 2 ^ 53) = 7205759403792794 / 2 ^ 54"
  using toDouble_eval[of "-2" "1 - 5404319552844595 / 2 ^ 53"]
  by (simp add: power_int_minus roundEven_def)

lemma times_100_060: "toDouble (7205759403792794 / 2 ^ 54 * 100) = 40"
  using toDouble_eval[of 5 "7205759403792794 / 2 ^ 54 * 100"]
  by (simp add: power_int_minus roundEven_def)

lemma toFixed_030: "toFixed (5404319552844595 / 2 ^ 54) 4 = 0.30"
  by (simp add: toFixed_def)

lemma toFixed_060: "toFixed (5404319552844595 / 2 ^ 53) 4 = 0.60"
  by (simp add: toFixed_def)

lemma toFixed_70: "toFixed 70 2 = 70"
  using toFixed_exact[of 7000 2] by simp

lemma toFixed_40: "toFixed 40 2 = 40"
  using toFixed_exact[of 4000 2] by simp

lemma scoreDistance_030:
  "scoreDistance (toDouble 0.30) =
     \<lparr>verified = True, distance = toDouble 0.30, matchPercentage = 70.00,
      threshold = toDouble 0.48\<rparr>"
proof -
  let ?d = "5404319552844595 / 2 ^ 54 :: real"
  have p: "percentageOf ?d = 70"
    unfolding percentageOf_def complement_030 times_100_030 by simp
  have v: "(?d < toDouble 0.48) = True" unfolding toDouble_048 by simp
  have m: "Number_toFixed 70 2 = 70.00"
    unfolding Number_toFixed_def toFixed_70 using toDouble_70 by simp
  have d: "Number_toFixed ?d 4 = toDouble 0.30"
    unfolding Number_toFixed_def toFixed_030 ..
  have "scoreDistance ?d =
     \<lparr>verified = True, distance = toDouble 0.30, matchPercentage = 70.00,
      threshold = toDouble 0.48\<rparr>"
    unfolding scoreDistance_def FACE_MATCH_THRESHOLD_def p m d v ..
  then show ?thesis unfolding toDouble_030 .
qed

lemma scoreDistance_060:
  "scoreDistance (toDouble 0.60) =
     \<lparr>verified = False, distance = toDouble 0.60, matchPercentage = 40.00,
      threshold = toDouble 0.48\<rparr>"
proof -
  let ?d = "5404319552844595 / 2 ^ 53 :: real"
  have p: "percentageOf ?d = 40"
    unfolding percentageOf_def complement_060 times_100_060 by simp
  have v: "(?d < toDouble 0.48) = False" unfolding toDouble_048 by simp
  have m: "Number_toFixed 40 2 = 40.00"
    unfolding Number_toFixed_def toFixed_40 using toDouble_40 by simp
  have d: "Number_toFixed ?d 4 = toDouble 0.60"
    unfolding Number_toFixed_def toFixed_060 ..
  have "scoreDistance ?d =
     \<lparr>verified = False, distance = toDouble 0.60, matchPercentage = 40.00,
      threshold = toDouble 0.48\<rparr>"
    unfolding scoreDistance_def FACE_MATCH_THRESHOLD_def p m d v ..
  then show ?thesis unfolding toDouble_060 .
qed

text \<open>
  Claim C6. At a Euclidean distance of exactly 0.30 (the double) the result is verified,
  with match percentage 70.00 and threshold 0.48; at a distance of exactly 0.60 it is not
  verified, with match percentage 40.00.
\<close>

theorem compareFaces_scenarios:
  "(euclideanDistance d1 d2 = Inr (toDouble 0.30) \<longrightarrow>
      compareFaces d1 d2 =
        Inr \<lparr>verified = True, distance = toDouble 0.30, matchPercentage = 70.00,
             threshold = toDouble 0.48\<rparr>)
   \<and> (euclideanDistance d1 d2 = Inr (toDouble 0.60) \<longrightarrow>
      compareFaces d1 d2 =
        Inr \<lparr>verified = False, distance = toDouble 0.60, matchPercentage = 40.00,
             threshold = toDouble 0.48\<rparr>)"
proof (intro conjI impI)
  assume "euclideanDistance d1 d2 = Inr (toDouble 0.30)"
  then have "compareFaces d1 d2 = Inr (scoreDistance (toDouble 0.30))"
    unfolding compareFaces_def by (simp only: sum.case)
  then show "compareFaces d1 d2 =
        Inr \<lparr>verified = True, distance = toDouble 0.30, matchPercentage = 70.00,
             threshold = toDouble 0.48\<rparr>"
    unfolding scoreDistance_030 .
next
  assume "euclideanDistance d1 d2 = Inr (toDouble 0.60)"
  then have "compareFaces d1 d2 = Inr (scoreDistance (toDouble 0.60))"
    unfolding compareFaces_def by (simp only: sum.case)
  then show "compareFaces d1 d2 =
        Inr \<lparr>verified = False, distance = toDouble 0.60, matchPercentage = 40.00,
             threshold = toDouble 0.48\<rparr>"
    unfolding scoreDistance_060 .
qed

lemma toDouble_030_nonneg: "0 \<le> toDouble 0.30"
  by (rule toDouble_nonneg) simp

lemma toDouble_060_nonneg: "0 \<le> toDouble 0.60"
  by (rule toDouble_nonneg) simp

theorem compareFaces_scenarios_witness:
  "euclideanDistance [toDouble 0.30, 5] [0, 5] = Inr (toDouble 0.30)
   \<and> compareFaces [toDouble 0.30, 5] [0, 5] =
        Inr \<lparr>verified = True, distance = toDouble 0.30, matchPercentage = 70.00,
             threshold = toDouble 0.48\<rparr>
   \<and> euclideanDistance [1, toDouble 0.60] [1, 0] = Inr (toDouble 0.60)
   \<and> compareFaces [1, toDouble 0.60] [1, 0] =
        Inr \<lparr>verified = False, distance = toDouble 0.60, matchPercentage = 40.00,
             threshold = toDouble 0.48\<rparr>"
proof -
  have a: "euclideanDistance [toDouble 0.30, 5] [0, 5] = Inr (toDouble 0.30)"
    using toDouble_030_nonneg by (rule euclideanDistance_one_coordinate(1))
  have b: "euclideanDistance [1, toDouble 0.60] [1, 0] = Inr (toDouble 0.60)"
    using toDouble_060_nonneg by (rule euclideanDistance_one_coordinate(2))
  from compareFaces_scenarios[of "[toDouble 0.30, 5]" "[0, 5]", THEN conjunct1, rule_format, OF a]
    compareFaces_scenarios[of "[1, toDouble 0.60]" "[1, 0]", THEN conjunct2, rule_format, OF b]
    a b
  show ?thesis by (intro conjI)
qed

subsection \<open>The embedding extractor\<close>

lemma emit_detectorCalls: "detectorCalls (emit e s) = detectorCalls s + (if isDetect e then 1 else 0)"
  by (simp add: detectorCalls_def emit_def)

lemma emit_decodeCalls: "decodeCalls (emit e s) = decodeCalls s + (if isDecode e then 1 else 0)"
  by (simp add: decodeCalls_def emit_def)

lemma detectorCalls_modelsLoaded: "detectorCalls (s\<lparr>modelsLoaded := b\<rparr>) = detectorCalls s"
  by (simp add: detectorCalls_def)

lemma decodeCalls_modelsLoaded: "decodeCalls (s\<lparr>modelsLoaded := b\<rparr>) = decodeCalls s"
  by (simp add: decodeCalls_def)

lemmas count_simps = emit_detectorCalls emit_decodeCalls detectorCalls_modelsLoaded
  decodeCalls_modelsLoaded

lemma loadNet_calls:
  "detectorCalls (snd (loadNet E n s)) = detectorCalls s"
  "decodeCalls (snd (loadNet E n s)) = decodeCalls s"
  by (simp_all add: loadNet_def count_simps split: option.splits)

lemma loadModels_calls:
  "detectorCalls (snd (loadModels E s)) = detectorCalls s \<and>
   decodeCalls (snd (loadModels E s)) = decodeCalls s"
proof (cases "modelsLoaded s")
  case True
  then show ?thesis by (simp add: loadModels_def)
next
  case False
  obtain r1 s1 where l1: "loadNet E ''ssdMobilenetv1'' (emit (ConsoleLog ''Loading face models...'') s) = (r1, s1)"
    by (cases "loadNet E ''ssdMobilenetv1'' (emit (ConsoleLog ''Loading face models...'') s)")
  obtain r2 s2 where l2: "loadNet E ''faceLandmark68Net'' s1 = (r2, s2)"
    by (cases "loadNet E ''faceLandmark68Net'' s1")
  obtain r3 s3 where l3: "loadNet E ''faceRecognitionNet'' s2 = (r3, s3)"
    by (cases "loadNet E ''faceRecognitionNet'' s2")
  have c1: "detectorCalls s1 = detectorCalls s" "decodeCalls s1 = decodeCalls s"
    using loadNet_calls[of E "''ssdMobilenetv1''" "emit (ConsoleLog ''Loading face models...'') s"] l1
    by (simp_all add: count_simps)
  have c2: "detectorCalls s2 = detectorCalls s1" "decodeCalls s2 = decodeCalls s1"
    using loadNet_calls[of E "''faceLandmark68Net''" s1] l2 by simp_all
  have c3: "detectorCalls s3 = detectorCalls s2" "decodeCalls s3 = decodeCalls s2"
    using loadNet_calls[of E "''faceRecognitionNet''" s2] l3 by simp_all
  show ?thesis
    using False l1 l2 l3 c1 c2 c3
    by (simp add: loadModels_def count_simps split: sum.splits)
qed

lemma extractFaceData_small:
  assumes "Image.width img < MIN_IMAGE_SIZE \<or> Image.height img < MIN_IMAGE_SIZE"
  shows "extractFaceData E img s =
           (case loadModels E s of
              (Inl e, s1) \<Rightarrow> (Inl e, s1)
            | (Inr _, s1) \<Rightarrow> (Inr (Failure ''Image too low quality. Use better camera.''), s1))"
  using assms by (simp add: extractFaceData_def split: prod.splits sum.splits)

lemma extractFaceData_large:
  assumes "\<not> (Image.width img < MIN_IMAGE_SIZE \<or> Image.height img < MIN_IMAGE_SIZE)"
  shows "extractFaceData E img s =
           (case loadModels E s of
              (Inl e, s1) \<Rightarrow> (Inl e, s1)
            | (Inr _, s1) \<Rightarrow>
                (case detectAllFaces E img detectorOptions of
                   Inl e \<Rightarrow> (Inl e, emit (DetectAllFaces img) s1)
                 | Inr detections \<Rightarrow>
                     (Inr (classifyDetections detections), emit (DetectAllFaces img) s1)))"
  using assms by (simp add: extractFaceData_def split: prod.splits sum.splits)

lemma classifyDetections_reasons:
  "classifyDetections ds = Failure m \<Longrightarrow>
     m \<in> {''No face detected'', ''Multiple faces detected'', ''Face too small. Move closer to camera.''}"
  by (auto simp: classifyDetections_def Let_def split: option.splits if_splits)

lemma classifyDetections_not_quality:
  "classifyDetections ds \<noteq> Failure ''Image too low quality. Use better camera.''"
  using classifyDetections_reasons[of ds "''Image too low quality. Use better camera.''"] by auto

lemma extractFaceData_snd_small:
  assumes "Image.width img < MIN_IMAGE_SIZE \<or> Image.height img < MIN_IMAGE_SIZE"
  shows "snd (extractFaceData E img s) = snd (loadModels E s)"
  using assms by (simp add: extractFaceData_small split: prod.splits sum.splits)

text \<open>
  Claim C3, as amended. \<^verbatim>\<open>extractFaceData\<close> awaits \<^verbatim>\<open>loadModels\<close> first (line 96). When
  that throws, the extraction throws the same error, whatever the image. When it does
  not, the image is rejected as too low in quality exactly when its width or its height is
  below 300, whatever the ratio of the two. An image that meets the floor is never
  rejected as too low in quality. For an image below the floor the detector is not called:
  the state is the one \<^verbatim>\<open>loadModels\<close> left.
\<close>

theorem extractFaceData_quality_gate:
  "(Image.width img < 300 \<or> Image.height img < 300 \<longrightarrow>
      snd (extractFaceData E img s) = snd (loadModels E s)
      \<and> detectorCalls (snd (extractFaceData E img s)) = detectorCalls s)
   \<and> (fst (loadModels E s) = Inr () \<longrightarrow>
        (fst (extractFaceData E img s) = Inr (Failure ''Image too low quality. Use better camera.'')
         \<longleftrightarrow> Image.width img < 300 \<or> Image.height img < 300))
   \<and> (fst (extractFaceData E img s) = Inr (Failure ''Image too low quality. Use better camera.'')
        \<longrightarrow> Image.width img < 300 \<or> Image.height img < 300)
   \<and> (\<forall>e. fst (loadModels E s) = Inl e \<longrightarrow> fst (extractFaceData E img s) = Inl e)"
proof -
  have a: "snd (extractFaceData E img s) = snd (loadModels E s)
           \<and> detectorCalls (snd (extractFaceData E img s)) = detectorCalls s"
    if "Image.width img < 300 \<or> Image.height img < 300"
    using that extractFaceData_snd_small[of img E s] loadModels_calls[of E s]
    by (simp add: MIN_IMAGE_SIZE_def)
  have b: "fst (extractFaceData E img s) = Inr (Failure ''Image too low quality. Use better camera.'')"
    if "Image.width img < 300 \<or> Image.height img < 300" "fst (loadModels E s) = Inr ()"
    using that extractFaceData_small[of img E s]
    by (auto simp: MIN_IMAGE_SIZE_def split: prod.splits sum.splits)
  have c: "Image.width img < 300 \<or> Image.height img < 300"
    if r: "fst (extractFaceData E img s) = Inr (Failure ''Image too low quality. Use better camera.'')"
  proof (rule ccontr)
    assume "\<not> (Image.width img < 300 \<or> Image.height img < 300)"
    then have "\<not> (Image.width img < MIN_IMAGE_SIZE \<or> Image.height img < MIN_IMAGE_SIZE)"
      by (simp add: MIN_IMAGE_SIZE_def)
    from extractFaceData_large[OF this, of E s] r classifyDetections_not_quality
    show False by (auto split: prod.splits sum.splits)
  qed
  have d: "fst (extractFaceData E img s) = Inl e" if "fst (loadModels E s) = Inl e" for e
    using that by (auto simp: extractFaceData_def split: prod.splits sum.splits)
  from a b c d show ?thesis by blast
qed

text \<open>
  The claim as it was stated, without the condition on \<^verbatim>\<open>loadModels\<close>, fails: with the
  model files missing, an image of 200 by 200 pixels is not rejected as too low in quality,
  the extraction throws.
\<close>

theorem extractFaceData_quality_gate_counterexample:
  "Image.width smallImage < 300
   \<and> fst (extractFaceData missingModelsEnv smallImage freshState)
       = Inl (Error ''ENOENT: no such file or directory'')
   \<and> fst (extractFaceData missingModelsEnv smallImage freshState)
       \<noteq> Inr (Failure ''Image too low quality. Use better camera.'')"
  by (simp add: extractFaceData_def loadModels_def loadNet_def missingModelsEnv_def
      sampleEnv_def smallImage_def freshState_def)

theorem extractFaceData_quality_gate_witness:
  "fst (loadModels (sampleEnv [2]) freshState) = Inr ()
   \<and> Image.width \<lparr>Image.width = 200, height = 400, pixels = [2, 7]\<rparr> < 300
   \<and> fst (extractFaceData (sampleEnv [2]) \<lparr>Image.width = 200, height = 400, pixels = [2, 7]\<rparr> freshState)
       = Inr (Failure ''Image too low quality. Use better camera.'')
   \<and> detectorCalls (snd (extractFaceData (sampleEnv [2])
        \<lparr>Image.width = 200, height = 400, pixels = [2, 7]\<rparr> freshState)) = 0"
proof -
  have l: "fst (loadModels (sampleEnv [2]) freshState) = Inr ()"
    by (simp add: loadModels_def loadNet_def sampleEnv_def freshState_def emit_def)
  have d: "detectorCalls freshState = 0"
    by (simp add: detectorCalls_def freshState_def)
  let ?img = "\<lparr>Image.width = 200, height = 400, pixels = [2, 7]\<rparr>"
  note gate = extractFaceData_quality_gate[of ?img "sampleEnv [2]" freshState]
  have small: "Image.width ?img < 300 \<or> Image.height ?img < 300" by simp
  from gate small
  have a: "detectorCalls (snd (extractFaceData (sampleEnv [2]) ?img freshState)) = detectorCalls freshState"
    by blast
  from gate small l
  have b: "fst (extractFaceData (sampleEnv [2]) ?img freshState)
             = Inr (Failure ''Image too low quality. Use better camera.'')"
    by blast
  show ?thesis using l a b d by simp
qed

lemma extractFaceData_classifies:
  assumes "loadModels E s = (Inr (), s1)"
    and "\<not> (Image.width img < MIN_IMAGE_SIZE \<or> Image.height img < MIN_IMAGE_SIZE)"
    and "detectAllFaces E img detectorOptions = Inr detections"
  shows "extractFaceData E img s = (Inr (classifyDetections detections), emit (DetectAllFaces img) s1)"
  using assms by (simp add: extractFaceData_large)

text \<open>
  Claim C2. The detections are classified in this order, the first match winning: none is
  no face; more than one is multiple faces, whatever the boxes; a single one whose box is
  narrower than 120 is too small; otherwise the single detection is accepted, in particular
  at a width of exactly 120. This classification is what \<^verbatim>\<open>extractFaceData\<close> returns for
  an image that passed the size check.
\<close>

theorem classifyDetections_order:
  "classifyDetections (Some []) = Failure ''No face detected''
   \<and> (length ds > 1 \<longrightarrow> classifyDetections (Some ds) = Failure ''Multiple faces detected'')
   \<and> (Box.width (box (detection d)) < 120 \<longrightarrow>
        classifyDetections (Some [d]) = Failure ''Face too small. Move closer to camera.'')
   \<and> (\<not> Box.width (box (detection d)) < 120 \<longrightarrow>
        classifyDetections (Some [d]) = Success (descriptor d))
   \<and> (Box.width (box (detection d)) = 120 \<longrightarrow>
        classifyDetections (Some [d]) = Success (descriptor d))
   \<and> (\<forall>s1 detections.
         loadModels E s = (Inr (), s1) \<and> 300 \<le> Image.width img \<and> 300 \<le> Image.height img
         \<and> detectAllFaces E img detectorOptions = Inr detections \<longrightarrow>
         fst (extractFaceData E img s) = Inr (classifyDetections detections))"
proof -
  have "fst (extractFaceData E img s) = Inr (classifyDetections detections)"
    if "loadModels E s = (Inr (), s1)" "300 \<le> Image.width img" "300 \<le> Image.height img"
      "detectAllFaces E img detectorOptions = Inr detections" for s1 detections
    using that extractFaceData_classifies[of E s s1 img detections]
    by (simp add: MIN_IMAGE_SIZE_def)
  then show ?thesis
    by (simp add: classifyDetections_def MIN_FACE_WIDTH_def)
qed

theorem classifyDetections_order_witness:
  "length [sampleFace 150 [1], sampleFace 50 [2]] > 1
   \<and> classifyDetections (Some [sampleFace 150 [1], sampleFace 50 [2]]) = Failure ''Multiple faces detected''
   \<and> Box.width (box (detection (sampleFace 119.5 [1]))) < 120
   \<and> classifyDetections (Some [sampleFace 119.5 [1]]) = Failure ''Face too small. Move closer to camera.''
   \<and> Box.width (box (detection (sampleFace 120 [1]))) = 120
   \<and> classifyDetections (Some [sampleFace 120 [1]]) = Success [1]"
  using classifyDetections_order[of "[sampleFace 150 [1], sampleFace 50 [2]]" "sampleFace 119.5 [1]"]
    classifyDetections_order[of "[]" "sampleFace 120 [1]"]
  by (simp add: sampleFace_def)

subsection \<open>The verify endpoint\<close>

lemma loadImageFromBuffer_calls:
  "decodeCalls (snd (loadImageFromBuffer E buf s)) = decodeCalls s + 1 \<and>
   detectorCalls (snd (loadImageFromBuffer E buf s)) = detectorCalls s"
  by (simp add: loadImageFromBuffer_def count_simps)

lemma loadImageFromUrl_calls:
  assumes "loadImageFromUrl E url s = (Inr img, s1)"
  shows "decodeCalls s1 = decodeCalls s + 1 \<and> detectorCalls s1 = detectorCalls s"
  using assms
  by (auto simp: loadImageFromUrl_def count_simps split: sum.splits if_splits)

lemma extractFaceData_calls:
  "decodeCalls (snd (extractFaceData E img s)) = decodeCalls s \<and>
   detectorCalls (snd (extractFaceData E img s)) \<le> detectorCalls s + 1"
proof -
  obtain r s1 where l: "loadModels E s = (r, s1)" by (cases "loadModels E s")
  with loadModels_calls[of E s]
  have c: "detectorCalls s1 = detectorCalls s" "decodeCalls s1 = decodeCalls s" by simp_all
  show ?thesis
    using l c by (simp add: extractFaceData_def count_simps split: sum.splits)
qed

lemma extractFaceData_reasons:
  assumes "extractFaceData E img s = (Inr (Failure m), s')"
  shows "m \<in> userFacingReasons"
proof (cases "Image.width img < MIN_IMAGE_SIZE \<or> Image.height img < MIN_IMAGE_SIZE")
  case True
  from extractFaceData_small[OF True, of E s] assms show ?thesis
    by (auto simp: userFacingReasons_def split: prod.splits sum.splits)
next
  case False
  from extractFaceData_large[OF False, of E s] assms
  obtain ds where "classifyDetections ds = Failure m"
    by (auto split: prod.splits sum.splits)
  from classifyDetections_reasons[OF this] show ?thesis
    by (auto simp: userFacingReasons_def)
qed

lemma verifyTry_valid:
  assumes "referenceImageUrl req = Some url" "url \<noteq> []" "selfieFile req = Some buf"
  shows "verifyTry E req s =
          (case loadImageFromUrl E url s of
             (Inl e, s1) \<Rightarrow> (Inl e, s1)
           | (Inr referenceImg, s1) \<Rightarrow>
          (case extractFaceData E referenceImg s1 of
             (Inl e, s2) \<Rightarrow> (Inl e, s2)
           | (Inr (Failure msg), s2) \<Rightarrow>
               (Inr \<lparr>status = 400, body = Msg (''Reference image error: '' @ msg)\<rparr>, s2)
           | (Inr (Success refDescriptor), s2) \<Rightarrow>
          (case loadImageFromBuffer E buf s2 of
             (Inl e, s3) \<Rightarrow> (Inl e, s3)
           | (Inr selfieImg, s3) \<Rightarrow>
          (case extractFaceData E selfieImg s3 of
             (Inl e, s4) \<Rightarrow> (Inl e, s4)
           | (Inr (Failure msg), s4) \<Rightarrow>
               (Inr \<lparr>status = 400, body = Msg (''Selfie error: '' @ msg)\<rparr>, s4)
           | (Inr (Success selfieDescriptor), s4) \<Rightarrow>
          (case compareFaces refDescriptor selfieDescriptor of
             Inl e \<Rightarrow> (Inl e, s4)
           | Inr result \<Rightarrow> (Inr \<lparr>status = 200, body = Result result\<rparr>, s4))))))"
  using assms by (simp add: verifyTry_def)

lemma verify_reference_fault:
  assumes "referenceImageUrl req = Some url" "url \<noteq> []" "selfieFile req = Some buf"
    and "loadImageFromUrl E url s = (Inl e, s1)"
  shows "verify E req s = (genericFailure, emit (ConsoleError e) s1)"
  using assms(4) by (simp add: verify_def verifyTry_valid[OF assms(1-3)] genericFailure_def)

lemma verify_reference_extract_fault:
  assumes "referenceImageUrl req = Some url" "url \<noteq> []" "selfieFile req = Some buf"
    and "loadImageFromUrl E url s = (Inr img, s1)"
    and "extractFaceData E img s1 = (Inl e, s2)"
  shows "verify E req s = (genericFailure, emit (ConsoleError e) s2)"
  using assms(4,5) by (simp add: verify_def verifyTry_valid[OF assms(1-3)] genericFailure_def)

lemma verify_reference_rejected:
  assumes "referenceImageUrl req = Some url" "url \<noteq> []" "selfieFile req = Some buf"
    and "loadImageFromUrl E url s = (Inr img, s1)"
    and "extractFaceData E img s1 = (Inr (Failure m), s2)"
  shows "verify E req s =
           (\<lparr>status = 400, body = Msg (''Reference image error: '' @ m)\<rparr>, s2)"
  using assms(4,5) by (simp add: verify_def verifyTry_valid[OF assms(1-3)])

lemma verify_selfie_decode_fault:
  assumes "referenceImageUrl req = Some url" "url \<noteq> []" "selfieFile req = Some buf"
    and "loadImageFromUrl E url s = (Inr img, s1)"
    and "extractFaceData E img s1 = (Inr (Success d1), s2)"
    and "loadImageFromBuffer E buf s2 = (Inl e, s3)"
  shows "verify E req s = (genericFailure, emit (ConsoleError e) s3)"
  using assms(4-) by (simp add: verify_def verifyTry_valid[OF assms(1-3)] genericFailure_def)

lemma verify_selfie_extract_fault:
  assumes "referenceImageUrl req = Some url" "url \<noteq> []" "selfieFile req = Some buf"
    and "loadImageFromUrl E url s = (Inr img, s1)"
    and "extractFaceData E img s1 = (Inr (Success d1), s2)"
    and "loadImageFromBuffer E buf s2 = (Inr selfieImg, s3)"
    and "extractFaceData E selfieImg s3 = (Inl e, s4)"
  shows "verify E req s = (genericFailure, emit (ConsoleError e) s4)"
  using assms(4-) by (simp add: verify_def verifyTry_valid[OF assms(1-3)] genericFailure_def)

lemma verify_selfie_rejected:
  assumes "referenceImageUrl req = Some url" "url \<noteq> []" "selfieFile req = Some buf"
    and "loadImageFromUrl E url s = (Inr img, s1)"
    and "extractFaceData E img s1 = (Inr (Success d1), s2)"
    and "loadImageFromBuffer E buf s2 = (Inr selfieImg, s3)"
    and "extractFaceData E selfieImg s3 = (Inr (Failure m), s4)"
  shows "verify E req s = (\<lparr>status = 400, body = Msg (''Selfie error: '' @ m)\<rparr>, s4)"
  using assms(4-) by (simp add: verify_def verifyTry_valid[OF assms(1-3)])

lemma verify_compared:
  assumes "referenceImageUrl req = Some url" "url \<noteq> []" "selfieFile req = Some buf"
    and "loadImageFromUrl E url s = (Inr img, s1)"
    and "extractFaceData E img s1 = (Inr (Success d1), s2)"
    and "loadImageFromBuffer E buf s2 = (Inr selfieImg, s3)"
    and "extractFaceData E selfieImg s3 = (Inr (Success d2), s4)"
  shows "verify E req s =
           (case compareFaces d1 d2 of
              Inr r \<Rightarrow> (\<lparr>status = 200, body = Result r\<rparr>, s4)
            | Inl e \<Rightarrow> (genericFailure, emit (ConsoleError e) s4))"
  using assms(4-)
  by (simp add: verify_def verifyTry_valid[OF assms(1-3)] genericFailure_def split: sum.splits)

lemma verify_result_only_after_both:
  assumes "referenceImageUrl req = Some url" "url \<noteq> []" "selfieFile req = Some buf"
    and "loadImageFromUrl E url s = (Inr img, s1)"
    and "extractFaceData E img s1 = (Inr refData, s2)"
    and "body (fst (verify E req s)) = Result r"
  shows "\<exists>d1 d2 selfieImg s3 s4. refData = Success d1
           \<and> loadImageFromBuffer E buf s2 = (Inr selfieImg, s3)
           \<and> extractFaceData E selfieImg s3 = (Inr (Success d2), s4)
           \<and> compareFaces d1 d2 = Inr r"
proof (cases refData)
  case (Failure m)
  with verify_reference_rejected[OF assms(1-4), of m s2] assms(5,6) show ?thesis by simp
next
  case (Success d1)
  note ref = assms(5)[unfolded Success]
  obtain r3 s3 where l3: "loadImageFromBuffer E buf s2 = (r3, s3)"
    by (cases "loadImageFromBuffer E buf s2")
  show ?thesis
  proof (cases r3)
    case (Inl e)
    with verify_selfie_decode_fault[OF assms(1-4) ref, of e s3] l3 assms(6)
    show ?thesis by (simp add: genericFailure_def)
  next
    case (Inr selfieImg)
    note dec = l3[unfolded Inr]
    obtain r4 s4 where l4: "extractFaceData E selfieImg s3 = (r4, s4)"
      by (cases "extractFaceData E selfieImg s3")
    show ?thesis
    proof (cases r4)
      case (Inl e)
      with verify_selfie_extract_fault[OF assms(1-4) ref dec, of e s4] l4 assms(6)
      show ?thesis by (simp add: genericFailure_def)
    next
      case (Inr selfieData)
      show ?thesis
      proof (cases selfieData)
        case (Failure m)
        with verify_selfie_rejected[OF assms(1-4) ref dec, of m s4] l4 Inr assms(6)
        show ?thesis by simp
      next
        case (Success d2)
        with l4 Inr have ex: "extractFaceData E selfieImg s3 = (Inr (Success d2), s4)" by simp
        from verify_compared[OF assms(1-4) ref dec ex] assms(6)
        have "compareFaces d1 d2 = Inr r"
          by (cases "compareFaces d1 d2") (simp_all add: genericFailure_def)
        with \<open>refData = Success d1\<close> dec ex show ?thesis by blast
      qed
    qed
  qed
qed


lemma pair_collapse: "fst p = a \<Longrightarrow> p = (a, snd p)"
  by (cases p) simp

lemma sampleEnv_loadModels: "fst (loadModels (sampleEnv b) s) = Inr ()"
  by (simp add: loadModels_def loadNet_def sampleEnv_def)

lemma sampleEnv_loadImageFromUrl:
  "fst (loadImageFromUrl (sampleEnv (n # b)) url s)
     = Inr \<lparr>Image.width = 100 * n, height = 100 * n, pixels = n # b\<rparr>"
  by (simp add: loadImageFromUrl_def sampleEnv_def)

lemma sampleEnv_loadImageFromBuffer:
  "fst (loadImageFromBuffer (sampleEnv r) (n # b) s)
     = Inr \<lparr>Image.width = 100 * n, height = 100 * n, pixels = n # b\<rparr>"
  by (simp add: loadImageFromBuffer_def sampleEnv_def)

lemma sampleEnv_extract_small:
  assumes "Image.width img < 300 \<or> Image.height img < 300"
  shows "fst (extractFaceData (sampleEnv b) img s)
           = Inr (Failure ''Image too low quality. Use better camera.'')"
proof -
  have "Image.width img < MIN_IMAGE_SIZE \<or> Image.height img < MIN_IMAGE_SIZE"
    using assms by (simp add: MIN_IMAGE_SIZE_def)
  from extractFaceData_small[OF this, of "sampleEnv b" s] sampleEnv_loadModels[of b s]
  show ?thesis by (auto split: prod.splits sum.splits)
qed

lemma sampleEnv_extract_one_face:
  assumes "300 \<le> Image.width img" "300 \<le> Image.height img" "tl (pixels img) = [v]"
  shows "fst (extractFaceData (sampleEnv b) img s) = Inr (Success [real v / 8, 5])"
proof -
  have "\<not> (Image.width img < MIN_IMAGE_SIZE \<or> Image.height img < MIN_IMAGE_SIZE)"
    using assms by (simp add: MIN_IMAGE_SIZE_def)
  from extractFaceData_large[OF this, of "sampleEnv b" s] sampleEnv_loadModels[of b s] assms(3)
  show ?thesis
    by (auto simp: sampleEnv_def classifyDetections_def sampleFace_def MIN_FACE_WIDTH_def
        split: prod.splits sum.splits)
qed

lemma calls_freshState: "decodeCalls freshState = 0" "detectorCalls freshState = 0"
  by (simp_all add: decodeCalls_def detectorCalls_def freshState_def)

lemma sampleRequest_fields:
  "referenceImageUrl (sampleRequest b) = Some ''http://host/ref.jpg''"
  "''http://host/ref.jpg'' \<noteq> []"
  "selfieFile (sampleRequest b) = Some b"
  by (simp_all add: sampleRequest_def)


text \<open>
  Claim C5. When the reference image has been loaded and its extraction returns a rejection,
  the handler answers 400 with the message labelled as a reference image error and stops
  there: the state is the one the reference extraction left, so the selfie is neither
  decoded nor shown to the detector (one image decoded, at most one detector call). Only
  when the reference succeeds is the selfie decoded and extracted, a rejection being
  labelled as a selfie error. Only when both succeed are the descriptors compared, and a
  comparison result in the response means that both did succeed.
\<close>

theorem verify_short_circuit:
  assumes "referenceImageUrl req = Some url" "url \<noteq> []" "selfieFile req = Some buf"
    and "loadImageFromUrl E url s = (Inr refImg, s1)"
    and "extractFaceData E refImg s1 = (Inr refData, s2)"
  shows "(\<forall>m. refData = Failure m \<longrightarrow>
            verify E req s =
              (\<lparr>status = 400, body = Msg (''Reference image error: '' @ m)\<rparr>, s2)
            \<and> decodeCalls s2 = decodeCalls s + 1
            \<and> detectorCalls s2 \<le> detectorCalls s + 1)
       \<and> (\<forall>d1 selfieImg s3 m s4.
            refData = Success d1
            \<and> loadImageFromBuffer E buf s2 = (Inr selfieImg, s3)
            \<and> extractFaceData E selfieImg s3 = (Inr (Failure m), s4) \<longrightarrow>
            verify E req s = (\<lparr>status = 400, body = Msg (''Selfie error: '' @ m)\<rparr>, s4))
       \<and> (\<forall>d1 selfieImg s3 d2 s4.
            refData = Success d1
            \<and> loadImageFromBuffer E buf s2 = (Inr selfieImg, s3)
            \<and> extractFaceData E selfieImg s3 = (Inr (Success d2), s4) \<longrightarrow>
            verify E req s =
              (case compareFaces d1 d2 of
                 Inr r \<Rightarrow> (\<lparr>status = 200, body = Result r\<rparr>, s4)
               | Inl e \<Rightarrow> (genericFailure, emit (ConsoleError e) s4)))
       \<and> (\<forall>r. body (fst (verify E req s)) = Result r \<longrightarrow>
            (\<exists>d1 d2 selfieImg s3 s4. refData = Success d1
               \<and> loadImageFromBuffer E buf s2 = (Inr selfieImg, s3)
               \<and> extractFaceData E selfieImg s3 = (Inr (Success d2), s4)
               \<and> compareFaces d1 d2 = Inr r))"
proof -
  have c: "decodeCalls s2 = decodeCalls s + 1 \<and> detectorCalls s2 \<le> detectorCalls s + 1"
    using loadImageFromUrl_calls[OF assms(4)] extractFaceData_calls[of E refImg s1] assms(5)
    by simp
  have a: "\<forall>m. refData = Failure m \<longrightarrow>
            verify E req s =
              (\<lparr>status = 400, body = Msg (''Reference image error: '' @ m)\<rparr>, s2)
            \<and> decodeCalls s2 = decodeCalls s + 1
            \<and> detectorCalls s2 \<le> detectorCalls s + 1"
    using verify_reference_rejected[OF assms(1-4)] assms(5) c by blast
  have b: "\<forall>d1 selfieImg s3 m s4.
            refData = Success d1
            \<and> loadImageFromBuffer E buf s2 = (Inr selfieImg, s3)
            \<and> extractFaceData E selfieImg s3 = (Inr (Failure m), s4) \<longrightarrow>
            verify E req s = (\<lparr>status = 400, body = Msg (''Selfie error: '' @ m)\<rparr>, s4)"
    using verify_selfie_rejected[OF assms(1-4)] assms(5) by blast
  have d: "\<forall>d1 selfieImg s3 d2 s4.
            refData = Success d1
            \<and> loadImageFromBuffer E buf s2 = (Inr selfieImg, s3)
            \<and> extractFaceData E selfieImg s3 = (Inr (Success d2), s4) \<longrightarrow>
            verify E req s =
              (case compareFaces d1 d2 of
                 Inr r \<Rightarrow> (\<lparr>status = 200, body = Result r\<rparr>, s4)
               | Inl e \<Rightarrow> (genericFailure, emit (ConsoleError e) s4))"
    using verify_compared[OF assms(1-4)] assms(5) by blast
  have e: "\<forall>r. body (fst (verify E req s)) = Result r \<longrightarrow>
            (\<exists>d1 d2 selfieImg s3 s4. refData = Success d1
               \<and> loadImageFromBuffer E buf s2 = (Inr selfieImg, s3)
               \<and> extractFaceData E selfieImg s3 = (Inr (Success d2), s4)
               \<and> compareFaces d1 d2 = Inr r)"
    using verify_result_only_after_both[OF assms] by blast
  from a b d e show ?thesis by (intro conjI)
qed

theorem verify_short_circuit_witness:
  "verify (sampleEnv [2]) (sampleRequest [4, 3]) freshState =
     (\<lparr>status = 400,
       body = Msg ''Reference image error: Image too low quality. Use better camera.''\<rparr>,
      snd (extractFaceData (sampleEnv [2]) \<lparr>Image.width = 200, height = 200, pixels = [2]\<rparr>
             (snd (loadImageFromUrl (sampleEnv [2]) ''http://host/ref.jpg'' freshState))))
   \<and> decodeCalls (snd (verify (sampleEnv [2]) (sampleRequest [4, 3]) freshState)) = 1
   \<and> fst (verify (sampleEnv [4, 0]) (sampleRequest [2]) freshState) =
       \<lparr>status = 400, body = Msg ''Selfie error: Image too low quality. Use better camera.''\<rparr>
   \<and> status (fst (verify (sampleEnv [4, 0]) (sampleRequest [4, 3]) freshState)) = 200"
proof -
  let ?url = "''http://host/ref.jpg''"
  let ?small = "\<lparr>Image.width = 200, height = 200, pixels = [2]\<rparr>"
  let ?ref = "\<lparr>Image.width = 400, height = 400, pixels = [4, 0]\<rparr>"
  let ?selfie = "\<lparr>Image.width = 400, height = 400, pixels = [4, 3]\<rparr>"
  txt \<open>A reference image of 200 pixels: rejected, the selfie is not decoded.\<close>
  define a1 where "a1 = snd (loadImageFromUrl (sampleEnv [2]) ?url freshState)"
  define a2 where "a2 = snd (extractFaceData (sampleEnv [2]) ?small a1)"
  have la: "loadImageFromUrl (sampleEnv [2]) ?url freshState = (Inr ?small, a1)"
    unfolding a1_def by (rule pair_collapse) (simp add: sampleEnv_loadImageFromUrl[of 2 "[]" ?url freshState])
  have ea: "extractFaceData (sampleEnv [2]) ?small a1
              = (Inr (Failure ''Image too low quality. Use better camera.''), a2)"
    unfolding a2_def by (rule pair_collapse, rule sampleEnv_extract_small) simp
  note A = verify_short_circuit[OF sampleRequest_fields la ea, of "[4, 3]"]
  from A[THEN conjunct1, rule_format, OF refl]
  have A1: "verify (sampleEnv [2]) (sampleRequest [4, 3]) freshState =
     (\<lparr>status = 400,
       body = Msg ''Reference image error: Image too low quality. Use better camera.''\<rparr>, a2)"
    by simp
  from A[THEN conjunct1, rule_format, OF refl]
  have A2: "decodeCalls a2 = 1" by (simp add: calls_freshState)
  txt \<open>A good reference and a selfie of 200 pixels: the selfie is rejected.\<close>
  define b1 where "b1 = snd (loadImageFromUrl (sampleEnv [4, 0]) ?url freshState)"
  define b2 where "b2 = snd (extractFaceData (sampleEnv [4, 0]) ?ref b1)"
  define b3 where "b3 = snd (loadImageFromBuffer (sampleEnv [4, 0]) [2] b2)"
  define b4 where "b4 = snd (extractFaceData (sampleEnv [4, 0]) ?small b3)"
  have lb: "loadImageFromUrl (sampleEnv [4, 0]) ?url freshState = (Inr ?ref, b1)"
    unfolding b1_def by (rule pair_collapse) (simp add: sampleEnv_loadImageFromUrl[of 4 "[0]" ?url freshState])
  have eb: "extractFaceData (sampleEnv [4, 0]) ?ref b1 = (Inr (Success [0, 5]), b2)"
    unfolding b2_def by (rule pair_collapse) (simp add: sampleEnv_extract_one_face[of ?ref 0 "[4, 0]" b1])
  have sb: "loadImageFromBuffer (sampleEnv [4, 0]) [2] b2 = (Inr ?small, b3)"
    unfolding b3_def by (rule pair_collapse) (simp add: sampleEnv_loadImageFromBuffer[of "[4, 0]" 2 "[]" b2])
  have xb: "extractFaceData (sampleEnv [4, 0]) ?small b3
              = (Inr (Failure ''Image too low quality. Use better camera.''), b4)"
    unfolding b4_def by (rule pair_collapse, rule sampleEnv_extract_small) simp
  note B = verify_short_circuit[OF sampleRequest_fields lb eb, of "[2]"]
  from B[THEN conjunct2, THEN conjunct1, rule_format, OF conjI[OF refl conjI[OF sb xb]]]
  have B1: "verify (sampleEnv [4, 0]) (sampleRequest [2]) freshState =
      (\<lparr>status = 400, body = Msg ''Selfie error: Image too low quality. Use better camera.''\<rparr>, b4)"
    by simp
  txt \<open>Both images good: the descriptors are compared.\<close>
  define c3 where "c3 = snd (loadImageFromBuffer (sampleEnv [4, 0]) [4, 3] b2)"
  define c4 where "c4 = snd (extractFaceData (sampleEnv [4, 0]) ?selfie c3)"
  have sc: "loadImageFromBuffer (sampleEnv [4, 0]) [4, 3] b2 = (Inr ?selfie, c3)"
    unfolding c3_def by (rule pair_collapse) (simp add: sampleEnv_loadImageFromBuffer[of "[4, 0]" 4 "[3]" b2])
  have xc: "extractFaceData (sampleEnv [4, 0]) ?selfie c3 = (Inr (Success [3 / 8, 5]), c4)"
    unfolding c4_def by (rule pair_collapse) (simp add: sampleEnv_extract_one_face[of ?selfie 3 "[4, 0]" c3])
  note C = verify_short_circuit[OF sampleRequest_fields lb eb, of "[4, 3]"]
  from C[THEN conjunct2, THEN conjunct2, THEN conjunct1, rule_format,
      OF conjI[OF refl conjI[OF sc xc]]]
  have "verify (sampleEnv [4, 0]) (sampleRequest [4, 3]) freshState =
      (case compareFaces [0, 5] [3 / 8, 5] of
         Inr r \<Rightarrow> (\<lparr>status = 200, body = Result r\<rparr>, c4)
       | Inl e \<Rightarrow> (genericFailure, emit (ConsoleError e) c4))"
    .
  then have C1: "status (fst (verify (sampleEnv [4, 0]) (sampleRequest [4, 3]) freshState)) = 200"
    by (simp add: compareFaces_def euclideanDistance_def)
  show ?thesis using A1 A2 B1 C1 by (simp add: a1_def a2_def)
qed

lemma loadImageFromUrl_fetch_throws:
  "fetch E url = Inl e \<Longrightarrow> loadImageFromUrl E url s = (Inl e, emit (Fetch url) s)"
  by (simp add: loadImageFromUrl_def)

lemma loadImageFromUrl_not_ok:
  "fetch E url = Inr res \<Longrightarrow> \<not> ok res \<Longrightarrow>
   loadImageFromUrl E url s = (Inl (Error ''Failed to fetch reference image''), emit (Fetch url) s)"
  by (simp add: loadImageFromUrl_def)

lemma loadImageFromUrl_undecodable:
  "fetch E url = Inr res \<Longrightarrow> ok res \<Longrightarrow> buffer res = Inr b \<Longrightarrow> canvas_loadImage E b = Inl e \<Longrightarrow>
   loadImageFromUrl E url s =
     (Inl e, emit (CanvasLoadImage b) (emit ResBuffer (emit (Fetch url) s)))"
  by (simp add: loadImageFromUrl_def)

lemma loadImageFromBuffer_undecodable:
  "canvas_loadImage E b = Inl e \<Longrightarrow>
   loadImageFromBuffer E b s = (Inl e, emit (CanvasLoadImage b) s)"
  by (simp add: loadImageFromBuffer_def)

lemma extractFaceData_load_throws:
  "fst (loadModels E s) = Inl e \<Longrightarrow> fst (extractFaceData E img s) = Inl e"
  by (auto simp: extractFaceData_def split: prod.splits sum.splits)

lemma extractFaceData_detector_throws:
  assumes "fst (loadModels E s) = Inr ()"
    and "300 \<le> Image.width img" "300 \<le> Image.height img"
    and "detectAllFaces E img detectorOptions = Inl e"
  shows "fst (extractFaceData E img s) = Inl e"
proof -
  have "\<not> (Image.width img < MIN_IMAGE_SIZE \<or> Image.height img < MIN_IMAGE_SIZE)"
    using assms(2,3) by (simp add: MIN_IMAGE_SIZE_def)
  from extractFaceData_large[OF this, of E s] assms(1,4) show ?thesis
    by (auto split: prod.splits sum.splits)
qed


text \<open>
  Claim C8. Faults and rejections are kept apart. A fetch that throws, a response that is
  not ok, an image that does not decode, a model that does not load and a detector that
  throws all make the stage throw, and every thrown error is answered with the same status
  500 and fixed message, whatever the error says. A rejection returned by the extraction
  carries one of the four user-facing messages and is answered with status 400 and that
  message, labelled with the side it belongs to.
\<close>

theorem verify_fault_classes:
  assumes "referenceImageUrl req = Some url" "url \<noteq> []" "selfieFile req = Some buf"
  shows "(\<forall>e. fetch E url = Inl e \<longrightarrow> fst (verify E req s) = genericFailure)
       \<and> (\<forall>res. fetch E url = Inr res \<and> \<not> ok res \<longrightarrow> fst (verify E req s) = genericFailure)
       \<and> (\<forall>res b e. fetch E url = Inr res \<and> ok res \<and> buffer res = Inr b
              \<and> canvas_loadImage E b = Inl e \<longrightarrow> fst (verify E req s) = genericFailure)
       \<and> (\<forall>img s1 e s2. loadImageFromUrl E url s = (Inr img, s1)
              \<and> extractFaceData E img s1 = (Inl e, s2) \<longrightarrow>
              verify E req s = (genericFailure, emit (ConsoleError e) s2))
       \<and> (\<forall>img s1 d1 s2 e. loadImageFromUrl E url s = (Inr img, s1)
              \<and> extractFaceData E img s1 = (Inr (Success d1), s2)
              \<and> canvas_loadImage E buf = Inl e \<longrightarrow>
              fst (verify E req s) = genericFailure)
       \<and> (\<forall>img s1 d1 s2 selfieImg s3 e s4. loadImageFromUrl E url s = (Inr img, s1)
              \<and> extractFaceData E img s1 = (Inr (Success d1), s2)
              \<and> loadImageFromBuffer E buf s2 = (Inr selfieImg, s3)
              \<and> extractFaceData E selfieImg s3 = (Inl e, s4) \<longrightarrow>
              verify E req s = (genericFailure, emit (ConsoleError e) s4))
       \<and> (\<forall>img s0 e. fst (loadModels E s0) = Inl e \<longrightarrow> fst (extractFaceData E img s0) = Inl e)
       \<and> (\<forall>img s0 e. fst (loadModels E s0) = Inr () \<and> 300 \<le> Image.width img
              \<and> 300 \<le> Image.height img \<and> detectAllFaces E img detectorOptions = Inl e \<longrightarrow>
              fst (extractFaceData E img s0) = Inl e)
       \<and> (\<forall>img s1 m s2. loadImageFromUrl E url s = (Inr img, s1)
              \<and> extractFaceData E img s1 = (Inr (Failure m), s2) \<longrightarrow>
              m \<in> userFacingReasons
              \<and> fst (verify E req s) =
                  \<lparr>status = 400, body = Msg (''Reference image error: '' @ m)\<rparr>)
       \<and> (\<forall>img s1 d1 s2 selfieImg s3 m s4. loadImageFromUrl E url s = (Inr img, s1)
              \<and> extractFaceData E img s1 = (Inr (Success d1), s2)
              \<and> loadImageFromBuffer E buf s2 = (Inr selfieImg, s3)
              \<and> extractFaceData E selfieImg s3 = (Inr (Failure m), s4) \<longrightarrow>
              m \<in> userFacingReasons
              \<and> fst (verify E req s) = \<lparr>status = 400, body = Msg (''Selfie error: '' @ m)\<rparr>)
       \<and> (\<forall>e s'. verifyTry E req s = (Inl e, s') \<longrightarrow>
              verify E req s = (genericFailure, emit (ConsoleError e) s'))"
proof (intro conjI allI impI; (elim conjE)?)
  fix e assume "fetch E url = Inl e"
  from verify_reference_fault[OF assms loadImageFromUrl_fetch_throws[OF this]]
  show "fst (verify E req s) = genericFailure" by simp
next
  fix res assume "fetch E url = Inr res" "\<not> ok res"
  from verify_reference_fault[OF assms loadImageFromUrl_not_ok[OF this]]
  show "fst (verify E req s) = genericFailure" by simp
next
  fix res b e
  assume "fetch E url = Inr res" "ok res" "buffer res = Inr b" "canvas_loadImage E b = Inl e"
  from verify_reference_fault[OF assms loadImageFromUrl_undecodable[OF this]]
  show "fst (verify E req s) = genericFailure" by simp
next
  fix img s1 e s2
  assume "loadImageFromUrl E url s = (Inr img, s1)" "extractFaceData E img s1 = (Inl e, s2)"
  then show "verify E req s = (genericFailure, emit (ConsoleError e) s2)"
    by (rule verify_reference_extract_fault[OF assms])
next
  fix img s1 d1 s2 e
  assume "loadImageFromUrl E url s = (Inr img, s1)"
    "extractFaceData E img s1 = (Inr (Success d1), s2)" "canvas_loadImage E buf = Inl e"
  from verify_selfie_decode_fault[OF assms this(1,2) loadImageFromBuffer_undecodable[OF this(3)]]
  show "fst (verify E req s) = genericFailure" by simp
next
  fix img s1 d1 s2 selfieImg s3 e s4
  assume "loadImageFromUrl E url s = (Inr img, s1)"
    "extractFaceData E img s1 = (Inr (Success d1), s2)"
    "loadImageFromBuffer E buf s2 = (Inr selfieImg, s3)"
    "extractFaceData E selfieImg s3 = (Inl e, s4)"
  then show "verify E req s = (genericFailure, emit (ConsoleError e) s4)"
    by (rule verify_selfie_extract_fault[OF assms])
next
  fix img s0 e assume "fst (loadModels E s0) = Inl e"
  then show "fst (extractFaceData E img s0) = Inl e" by (rule extractFaceData_load_throws)
next
  fix img s0 e
  assume "fst (loadModels E s0) = Inr ()" "300 \<le> Image.width img" "300 \<le> Image.height img"
    "detectAllFaces E img detectorOptions = Inl e"
  then show "fst (extractFaceData E img s0) = Inl e" by (rule extractFaceData_detector_throws)
next
  fix img s1 m s2
  assume "loadImageFromUrl E url s = (Inr img, s1)" "extractFaceData E img s1 = (Inr (Failure m), s2)"
  then show "m \<in> userFacingReasons" by (simp add: extractFaceData_reasons)
next
  fix img s1 m s2
  assume "loadImageFromUrl E url s = (Inr img, s1)" "extractFaceData E img s1 = (Inr (Failure m), s2)"
  from verify_reference_rejected[OF assms this]
  show "fst (verify E req s) = \<lparr>status = 400, body = Msg (''Reference image error: '' @ m)\<rparr>"
    by simp
next
  fix img s1 d1 s2 selfieImg s3 m s4
  assume "extractFaceData E selfieImg s3 = (Inr (Failure m), s4)"
  then show "m \<in> userFacingReasons" by (rule extractFaceData_reasons)
next
  fix img s1 d1 s2 selfieImg s3 m s4
  assume "loadImageFromUrl E url s = (Inr img, s1)"
    "extractFaceData E img s1 = (Inr (Success d1), s2)"
    "loadImageFromBuffer E buf s2 = (Inr selfieImg, s3)"
    "extractFaceData E selfieImg s3 = (Inr (Failure m), s4)"
  from verify_selfie_rejected[OF assms this]
  show "fst (verify E req s) = \<lparr>status = 400, body = Msg (''Selfie error: '' @ m)\<rparr>"
    by simp
next
  fix e s' assume "verifyTry E req s = (Inl e, s')"
  then show "verify E req s = (genericFailure, emit (ConsoleError e) s')"
    by (simp add: verify_def genericFailure_def)
qed


theorem verify_fault_classes_witness:
  "fetch ((sampleEnv [4, 0])\<lparr>fetch := \<lambda>_. Inl (Error ''ECONNREFUSED'')\<rparr>) ''http://host/ref.jpg''
     = Inl (Error ''ECONNREFUSED'')
   \<and> fst (verify ((sampleEnv [4, 0])\<lparr>fetch := \<lambda>_. Inl (Error ''ECONNREFUSED'')\<rparr>)
            (sampleRequest [4, 3]) freshState)
       = \<lparr>status = 500, body = Msg ''Face verification failed''\<rparr>
   \<and> fst (verify ((sampleEnv [4, 0])\<lparr>fetch := \<lambda>_. Inr \<lparr>ok = False, buffer = Inr []\<rparr>\<rparr>)
            (sampleRequest [4, 3]) freshState)
       = \<lparr>status = 500, body = Msg ''Face verification failed''\<rparr>
   \<and> fst (verify
            ((sampleEnv [4, 0])\<lparr>detectAllFaces := \<lambda>_ _. Inl (Error ''model not loaded'')\<rparr>)
            (sampleRequest [4, 3]) freshState)
       = \<lparr>status = 500, body = Msg ''Face verification failed''\<rparr>
   \<and> fst (verify (sampleEnv [4]) (sampleRequest [4, 3]) freshState)
       = \<lparr>status = 400, body = Msg ''Reference image error: No face detected''\<rparr>"
proof -
  let ?url = "''http://host/ref.jpg''"
  let ?req = "sampleRequest [4, 3]"
  txt \<open>The reference URL cannot be reached.\<close>
  let ?E1 = "(sampleEnv [4, 0])\<lparr>fetch := \<lambda>_. Inl (Error ''ECONNREFUSED'')\<rparr>"
  have f1: "fetch ?E1 ?url = Inl (Error ''ECONNREFUSED'')" by simp
  from verify_fault_classes[where req="sampleRequest [4, 3]" and E="?E1" and s=freshState,
      OF sampleRequest_fields,
      THEN conjunct1, rule_format, OF f1]
  have r1: "fst (verify ?E1 ?req freshState) = genericFailure" .
  txt \<open>The reference URL answers with an error status.\<close>
  let ?E2 = "(sampleEnv [4, 0])\<lparr>fetch := \<lambda>_. Inr \<lparr>ok = False, buffer = Inr []\<rparr>\<rparr>"
  have f2: "fetch ?E2 ?url = Inr \<lparr>ok = False, buffer = Inr []\<rparr>
            \<and> \<not> ok \<lparr>ok = False, buffer = Inr []\<rparr>" by simp
  from verify_fault_classes[where req="sampleRequest [4, 3]" and E="?E2" and s=freshState,
      OF sampleRequest_fields,
      THEN conjunct2, THEN conjunct1, rule_format, OF f2]
  have r2: "fst (verify ?E2 ?req freshState) = genericFailure" .
  txt \<open>The detector throws on the reference image.\<close>
  let ?E3 = "(sampleEnv [4, 0])\<lparr>detectAllFaces := \<lambda>_ _. Inl (Error ''model not loaded'')\<rparr>"
  let ?ref = "\<lparr>Image.width = 400, height = 400, pixels = [4, 0]\<rparr>"
  define s1 where "s1 = snd (loadImageFromUrl ?E3 ?url freshState)"
  define s2 where "s2 = snd (extractFaceData ?E3 ?ref s1)"
  have l3: "loadImageFromUrl ?E3 ?url freshState = (Inr ?ref, s1)"
    unfolding s1_def by (rule pair_collapse) (simp add: loadImageFromUrl_def sampleEnv_def)
  have m3: "fst (loadModels ?E3 s1) = Inr () \<and> 300 \<le> Image.width ?ref \<and> 300 \<le> Image.height ?ref
            \<and> detectAllFaces ?E3 ?ref detectorOptions = Inl (Error ''model not loaded'')"
    by (simp add: loadModels_def loadNet_def sampleEnv_def)
  note T3 = verify_fault_classes[where req="sampleRequest [4, 3]" and E="?E3" and s=freshState,
      OF sampleRequest_fields]
  from T3[THEN conjunct2, THEN conjunct2, THEN conjunct2, THEN conjunct2, THEN conjunct2,
      THEN conjunct2, THEN conjunct2, THEN conjunct1, rule_format, OF m3]
  have "fst (extractFaceData ?E3 ?ref s1) = Inl (Error ''model not loaded'')" .
  then have e3: "extractFaceData ?E3 ?ref s1 = (Inl (Error ''model not loaded''), s2)"
    unfolding s2_def by (rule pair_collapse)
  from T3[THEN conjunct2, THEN conjunct2, THEN conjunct2, THEN conjunct1, rule_format,
      OF conjI[OF l3 e3]]
  have r3: "fst (verify ?E3 ?req freshState) = genericFailure" by simp
  txt \<open>The reference image shows no face: a rejection, not a fault.\<close>
  let ?E4 = "sampleEnv [4]"
  let ?empty = "\<lparr>Image.width = 400, height = 400, pixels = [4]\<rparr>"
  define t1 where "t1 = snd (loadImageFromUrl ?E4 ?url freshState)"
  define t2 where "t2 = snd (extractFaceData ?E4 ?empty t1)"
  have l4: "loadImageFromUrl ?E4 ?url freshState = (Inr ?empty, t1)"
    unfolding t1_def by (rule pair_collapse) (simp add: sampleEnv_loadImageFromUrl[of 4 "[]"])
  have "\<not> (Image.width ?empty < MIN_IMAGE_SIZE \<or> Image.height ?empty < MIN_IMAGE_SIZE)"
    by (simp add: MIN_IMAGE_SIZE_def)
  from extractFaceData_large[OF this, of ?E4 t1] sampleEnv_loadModels[of "[4]" t1]
  have "fst (extractFaceData ?E4 ?empty t1) = Inr (Failure ''No face detected'')"
    by (auto simp: sampleEnv_def classifyDetections_def split: prod.splits sum.splits)
  then have e4: "extractFaceData ?E4 ?empty t1 = (Inr (Failure ''No face detected''), t2)"
    unfolding t2_def by (rule pair_collapse)
  note T4 = verify_fault_classes[where req="sampleRequest [4, 3]" and E="?E4" and s=freshState,
      OF sampleRequest_fields]
  from T4[THEN conjunct2, THEN conjunct2, THEN conjunct2, THEN conjunct2, THEN conjunct2,
      THEN conjunct2, THEN conjunct2, THEN conjunct2, THEN conjunct1, rule_format,
      OF conjI[OF l4 e4]]
  have r4: "fst (verify ?E4 ?req freshState)
              = \<lparr>status = 400, body = Msg ''Reference image error: No face detected''\<rparr>"
    by simp
  show ?thesis using f1 r1 r2 r3 r4 by (simp add: genericFailure_def)
qed

subsection \<open>Concurrent first use of the models\<close>

text \<open>
  A call that runs alone passes through its suspension points to the result of
  \<^verbatim>\<open>loadModels\<close>, and a second call after a successful one loads nothing.
\<close>

lemma resume_sequential:
  "(case resume E Entry s of (p1, s1) \<Rightarrow>
    case resume E p1 s1 of (p2, s2) \<Rightarrow>
    case resume E p2 s2 of (p3, s3) \<Rightarrow>
    case resume E p3 s3 of (p4, s4) \<Rightarrow>
      (p4 = Returned \<and> loadModels E s = (Inr (), s4))
      \<or> (\<exists>e. p4 = Thrown e \<and> loadModels E s = (Inl e, s4)))"
  by (simp add: resume_def loadModels_def loadNet_def split: option.splits)

lemma loadModels_idempotent:
  assumes "loadModels E s = (Inr (), s1)"
  shows "loadModels E s1 = (Inr (), s1)"
proof -
  have "modelsLoaded s1"
    using assms
    by (auto simp: loadModels_def loadNet_def emit_def split: if_splits option.splits)
  then show ?thesis by (simp add: loadModels_def)
qed


text \<open>
  Claim C9. Two calls of \<^verbatim>\<open>loadModels\<close> on a fresh process, the second arriving while
  the first is suspended at its first \<^verbatim>\<open>await\<close>: the flag is still false, so the second
  call starts a load of its own instead of waiting, and each of the three models is loaded
  twice.
\<close>

theorem loadModels_concurrent_first_use_loads_twice:
  "runSchedule (sampleEnv []) [0, 1] ([Entry, Entry], freshState) =
     ([AwaitSsd, AwaitSsd],
      \<lparr>modelsLoaded = False,
       trace = [ConsoleLog ''Loading face models...'', LoadFromDisk ''ssdMobilenetv1'',
                ConsoleLog ''Loading face models...'', LoadFromDisk ''ssdMobilenetv1'']\<rparr>)
   \<and> runSchedule (sampleEnv []) [0, 1, 0, 1, 0, 1, 0, 1] ([Entry, Entry], freshState) =
     ([Returned, Returned],
      \<lparr>modelsLoaded = True,
       trace = [ConsoleLog ''Loading face models...'', LoadFromDisk ''ssdMobilenetv1'',
                ConsoleLog ''Loading face models...'', LoadFromDisk ''ssdMobilenetv1'',
                LoadFromDisk ''faceLandmark68Net'', LoadFromDisk ''faceLandmark68Net'',
                LoadFromDisk ''faceRecognitionNet'', LoadFromDisk ''faceRecognitionNet'',
                ConsoleLog ''Face models loaded'', ConsoleLog ''Face models loaded'']\<rparr>)"
  by (simp add: resumeCall_def resume_def sampleEnv_def freshState_def emit_def)

end
